theory Spec2Isabelle
  imports Complex_Main
begin

section \<open>Conventions\<close>

text \<open>
  The program is the Go repository \<^verbatim>\<open>yet-another-3d-thing\<close>: packages
  \<^verbatim>\<open>matrix\<close>, \<^verbatim>\<open>draw\<close>, \<^verbatim>\<open>display\<close> and \<^verbatim>\<open>parser\<close>.

  \<^item> A \<^verbatim>\<open>float64\<close> is modelled by the real number it denotes. Arithmetic on these
    values is exact in the model. Where the outcome of the code depends on the rounding
    of one floating-point operation, that operation is written with the binary64
    rounding \<open>round64\<close> of section \<open>Binary64 rounding\<close> (\<open>fadd\<close>, \<open>fsub\<close>).
    Infinities, NaN and overflow are outside the model.
  \<^item> A Go slice is a list; \<^verbatim>\<open>[][]float64\<close> is a list of rows.
  \<^item> A run-time panic (index out of range) is the value \<open>Inl IndexOutOfRange\<close>.
  \<^item> A function that mutates its argument returns the new value.
\<close>

type_synonym float64 = real
type_synonym matrix = "float64 list list"

datatype error = IndexOutOfRange

section \<open>Package matrix\<close>

text \<open>\<^verbatim>\<open>NewMatrix(params ...int)\<close>: 4 by 4 unless two sizes are given; all cells zero.\<close>

definition NewMatrix :: "nat list \<Rightarrow> matrix" where
  "NewMatrix params =
     (let rows = (if 2 \<le> length params then params ! 0 else 4);
          cols = (if 2 \<le> length params then params ! 1 else 4)
      in replicate rows (replicate cols 0))"

text \<open>\<^verbatim>\<open>MakeIdentity\<close> overwrites every cell: 1 where \<open>i = j\<close>, else 0.\<close>

definition MakeIdentity :: "matrix \<Rightarrow> matrix" where
  "MakeIdentity m =
     map (\<lambda>i. map (\<lambda>j. if i = j then 1 else 0) [0..<length (m ! i)]) [0..<length m]"

text \<open>
  The assignment \<^verbatim>\<open>t[i][j] = v\<close>. The constructors below use it only at literal
  indices inside the 4 by 4 matrix they have just allocated.
\<close>

definition set_cell :: "matrix \<Rightarrow> nat \<Rightarrow> nat \<Rightarrow> float64 \<Rightarrow> matrix" where
  "set_cell t i j v = t[i := (t ! i)[j := v]]"

definition MakeBezier :: matrix where
  "MakeBezier =
     (let t = NewMatrix [];
          t = set_cell t 0 0 (-1);
          t = set_cell t 0 1 3;
          t = set_cell t 0 2 (-3);
          t = set_cell t 0 3 1;
          t = set_cell t 1 0 3;
          t = set_cell t 1 1 (-6);
          t = set_cell t 1 2 3;
          t = set_cell t 2 0 (-3);
          t = set_cell t 2 1 3;
          t = set_cell t 3 0 1
      in t)"

definition MakeHermite :: matrix where
  "MakeHermite =
     (let t = NewMatrix [];
          t = set_cell t 0 0 2;
          t = set_cell t 0 1 (-2);
          t = set_cell t 0 2 1;
          t = set_cell t 0 3 1;
          t = set_cell t 1 0 (-3);
          t = set_cell t 1 1 3;
          t = set_cell t 1 2 (-2);
          t = set_cell t 1 3 (-1);
          t = set_cell t 2 2 1;
          t = set_cell t 3 0 1
      in t)"

text \<open>
  \<^verbatim>\<open>ExtractColumn\<close> reads \<^verbatim>\<open>matrix[i][colIndex]\<close> in every row, and panics when a
  row is too short.
\<close>

definition ExtractColumn :: "matrix \<Rightarrow> nat \<Rightarrow> error + float64 list" where
  "ExtractColumn m colIndex =
     (if list_all (\<lambda>row. colIndex < length row) m
      then Inr (map (\<lambda>row. row ! colIndex) m)
      else Inl IndexOutOfRange)"

text \<open>
  \<^verbatim>\<open>dot\<close> runs over the indices of \<open>x\<close>, adding \<^verbatim>\<open>x[i] * y[i]\<close> to an accumulator
  that starts at 0; it panics when \<open>y\<close> is shorter than \<open>x\<close>.
\<close>

definition dot :: "float64 list \<Rightarrow> float64 list \<Rightarrow> error + float64" where
  "dot x y =
     (if length x \<le> length y
      then Inr (foldl (\<lambda>output i. output + x ! i * y ! i) 0 [0..<length x])
      else Inl IndexOutOfRange)"

text \<open>Running a fallible step over a list, stopping at the first panic.\<close>

fun mapE :: "('a \<Rightarrow> error + 'b) \<Rightarrow> 'a list \<Rightarrow> error + 'b list" where
  "mapE f [] = Inr []"
| "mapE f (x # xs) =
     (case f x of
        Inl e \<Rightarrow> Inl e
      | Inr y \<Rightarrow> (case mapE f xs of Inl e \<Rightarrow> Inl e | Inr ys \<Rightarrow> Inr (y # ys)))"

text \<open>
  \<^verbatim>\<open>MultiplyMatrices(m1Ptr, m2Ptr *[][]float64)\<close>. The two arguments are pointers to
  matrix variables; \<open>vars\<close> maps each variable to the matrix it holds. The product is
  built in a fresh matrix of \<^verbatim>\<open>len(m1)\<close> rows and \<^verbatim>\<open>len(m2[0])\<close> columns (so an
  empty \<open>m2\<close> panics at \<^verbatim>\<open>m2[0]\<close>), cell \<open>(i, j)\<close> being \<open>dot\<close> of row \<open>i\<close> of \<open>m1\<close> and
  column \<open>j\<close> of \<open>m2\<close>; the last statement stores it in the variable \<open>m2Ptr\<close> points to.
\<close>

definition MultiplyMatrices :: "'p \<Rightarrow> 'p \<Rightarrow> ('p \<Rightarrow> matrix) \<Rightarrow> error + ('p \<Rightarrow> matrix)" where
  "MultiplyMatrices m1Ptr m2Ptr vars =
     (let m1 = vars m1Ptr; m2 = vars m2Ptr
      in if m2 = [] then Inl IndexOutOfRange
         else
           (case mapE (\<lambda>row.
                   mapE (\<lambda>j. case ExtractColumn m2 j of
                                 Inl e \<Rightarrow> Inl e
                               | Inr col \<Rightarrow> dot row col)
                        [0..<length (m2 ! 0)])
                 m1 of
              Inl e \<Rightarrow> Inl e
            | Inr product \<Rightarrow> Inr (vars(m2Ptr := product))))"

text \<open>
  The transform constructors. \<^verbatim>\<open>MakeTranslationMatrix\<close> and \<^verbatim>\<open>MakeDilationMatrix\<close>
  read \<^verbatim>\<open>params[0..2]\<close> and panic on a shorter argument list.
\<close>

definition MakeTranslationMatrix :: "float64 list \<Rightarrow> error + matrix" where
  "MakeTranslationMatrix params =
     (let m = NewMatrix [];
          m = MakeIdentity m
      in if length params < 3 then Inl IndexOutOfRange
         else Inr (set_cell (set_cell (set_cell m 0 3 (params ! 0)) 1 3 (params ! 1))
                     2 3 (params ! 2)))"

definition MakeDilationMatrix :: "float64 list \<Rightarrow> error + matrix" where
  "MakeDilationMatrix params =
     (let m = NewMatrix [];
          m = MakeIdentity m
      in if length params < 3 then Inl IndexOutOfRange
         else Inr (set_cell (set_cell (set_cell m 0 0 (params ! 0)) 1 1 (params ! 1))
                     2 2 (params ! 2)))"

definition MakeRotX :: "float64 \<Rightarrow> matrix" where
  "MakeRotX theta =
     (let m = NewMatrix [];
          radians = theta / 180 * pi;
          sin' = sin radians; cos' = cos radians;
          m = MakeIdentity m;
          m = set_cell m 1 1 cos'; m = set_cell m 1 2 (- sin');
          m = set_cell m 2 1 sin'; m = set_cell m 2 2 cos'
      in m)"

definition MakeRotY :: "float64 \<Rightarrow> matrix" where
  "MakeRotY theta =
     (let m = NewMatrix [];
          radians = theta / 180 * pi;
          sin' = sin radians; cos' = cos radians;
          m = MakeIdentity m;
          m = set_cell m 0 0 cos'; m = set_cell m 0 2 sin';
          m = set_cell m 2 0 (- sin'); m = set_cell m 2 2 cos'
      in m)"

definition MakeRotZ :: "float64 \<Rightarrow> matrix" where
  "MakeRotZ theta =
     (let m = NewMatrix [];
          radians = theta / 180 * pi;
          sin' = sin radians; cos' = cos radians;
          m = MakeIdentity m;
          m = set_cell m 0 0 cos'; m = set_cell m 0 1 (- sin');
          m = set_cell m 1 0 sin'; m = set_cell m 1 1 cos'
      in m)"

section \<open>Facts about package matrix\<close>

lemma NewMatrix_default:
  "NewMatrix [] = [[0, 0, 0, 0], [0, 0, 0, 0], [0, 0, 0, 0], [0, 0, 0, 0]]"
  by (simp add: NewMatrix_def numeral_eq_Suc)

lemma upt_4: "[0..<4] = [0, Suc 0, 2, 3]"
  by (simp add: upt_rec numeral_eq_Suc)

lemma MakeIdentity_default:
  "MakeIdentity (NewMatrix []) = [[1, 0, 0, 0], [0, 1, 0, 0], [0, 0, 1, 0], [0, 0, 0, 1]]"
  by (simp add: MakeIdentity_def NewMatrix_default upt_4)

text \<open>
  Claim C6. \<^verbatim>\<open>MakeBezier\<close> and \<^verbatim>\<open>MakeHermite\<close> return exactly the constant matrices
  with rows \<open>[-1,3,-3,1], [3,-6,3,0], [-3,3,0,0], [1,0,0,0]\<close> (Bezier) and
  \<open>[2,-2,1,1], [-3,3,-2,-1], [0,0,1,0], [1,0,0,0]\<close> (Hermite).
\<close>

theorem basis_matrices_exact:
  "MakeBezier = [[-1, 3, -3, 1], [3, -6, 3, 0], [-3, 3, 0, 0], [1, 0, 0, 0]] \<and>
   MakeHermite = [[2, -2, 1, 1], [-3, 3, -2, -1], [0, 0, 1, 0], [1, 0, 0, 0]]"
  by (simp add: MakeBezier_def MakeHermite_def NewMatrix_default set_cell_def)

text \<open>
  Claim C7. For every angle \<open>theta\<close> in degrees, each rotation constructor works with
  the angle \<open>theta * pi / 180\<close> in radians and returns the 4 by 4 identity overwritten
  on its plane only: \<^verbatim>\<open>MakeRotX\<close> has \<open>cos, -sin; sin, cos\<close> at rows and columns 1 and 2;
  \<^verbatim>\<open>MakeRotY\<close> has \<open>m[0][0] = cos\<close>, \<open>m[0][2] = sin\<close>, \<open>m[2][0] = -sin\<close>, \<open>m[2][2] = cos\<close>;
  \<^verbatim>\<open>MakeRotZ\<close> has \<open>m[0][0] = cos\<close>, \<open>m[0][1] = -sin\<close>, \<open>m[1][0] = sin\<close>, \<open>m[1][1] = cos\<close>.
\<close>

theorem rotation_matrices:
  "MakeRotX theta =
     [[1, 0, 0, 0],
      [0, cos (theta * pi / 180), - sin (theta * pi / 180), 0],
      [0, sin (theta * pi / 180), cos (theta * pi / 180), 0],
      [0, 0, 0, 1]] \<and>
   MakeRotY theta =
     [[cos (theta * pi / 180), 0, sin (theta * pi / 180), 0],
      [0, 1, 0, 0],
      [- sin (theta * pi / 180), 0, cos (theta * pi / 180), 0],
      [0, 0, 0, 1]] \<and>
   MakeRotZ theta =
     [[cos (theta * pi / 180), - sin (theta * pi / 180), 0, 0],
      [sin (theta * pi / 180), cos (theta * pi / 180), 0, 0],
      [0, 0, 1, 0],
      [0, 0, 0, 1]]"
  by (simp add: MakeRotX_def MakeRotY_def MakeRotZ_def MakeIdentity_default set_cell_def Let_def)

section \<open>Package parser: composing a transform step\<close>

text \<open>
  The variables of \<^verbatim>\<open>ParseFile\<close> that hold matrices: its parameters \<^verbatim>\<open>transform\<close> and
  \<^verbatim>\<open>edges\<close>, and the local \<^verbatim>\<open>stepTransform\<close> of the branch for \<^verbatim>\<open>move\<close>,
  \<^verbatim>\<open>scale\<close> and \<^verbatim>\<open>rotate\<close>.
\<close>

datatype var = Transform | Edges | StepTransform

text \<open>
  The end of that branch (the spec's \<^verbatim>\<open>composeStep\<close>):
  \<^verbatim>\<open>if len(transform) == 0 { transform = stepTransform }
   else { matrix.MultiplyMatrices(&stepTransform, &transform) }\<close>
\<close>

definition composeStep :: "(var \<Rightarrow> matrix) \<Rightarrow> error + (var \<Rightarrow> matrix)" where
  "composeStep vars =
     (if length (vars Transform) = 0 then Inr (vars(Transform := vars StepTransform))
      else MultiplyMatrices StepTransform Transform vars)"

section \<open>The matrix product\<close>

text \<open>
  A matrix of \<open>r\<close> rows and \<open>c\<close> columns, as a list of rows; and the product of two
  matrices as the spec words it: entry \<open>(i, j)\<close> is the dot product of row \<open>i\<close> of \<open>a\<close>
  with column \<open>j\<close> of \<open>b\<close>. A list with no rows has no column count: \<open>matrix_product\<close>
  reads the column count of \<open>b\<close> off its first row.
\<close>

definition is_matrix :: "nat \<Rightarrow> nat \<Rightarrow> matrix \<Rightarrow> bool" where
  "is_matrix r c m \<longleftrightarrow> length m = r \<and> list_all (\<lambda>row. length row = c) m"

definition matrix_product :: "matrix \<Rightarrow> matrix \<Rightarrow> matrix" where
  "matrix_product a b =
     map (\<lambda>row. map (\<lambda>j. \<Sum>k<length row. row ! k * b ! k ! j) [0..<length (b ! 0)]) a"

lemma foldl_upt_sum:
  "foldl (\<lambda>output i. output + f i) (0::real) [0..<n] = (\<Sum>k<n. f k)"
  by (induction n) simp_all

lemma dot_sum:
  "length x \<le> length y \<Longrightarrow> dot x y = Inr (\<Sum>k<length x. x ! k * y ! k)"
  by (simp add: dot_def foldl_upt_sum)

lemma mapE_Inr:
  "(\<And>x. x \<in> set xs \<Longrightarrow> f x = Inr (g x)) \<Longrightarrow> mapE f xs = Inr (map g xs)"
  by (induction xs) simp_all

lemma ExtractColumn_ok:
  "is_matrix n p b \<Longrightarrow> j < p \<Longrightarrow> ExtractColumn b j = Inr (map (\<lambda>row. row ! j) b)"
  by (auto simp: ExtractColumn_def is_matrix_def list_all_iff)

lemma MultiplyMatrices_product:
  assumes a: "is_matrix m n (vars a)" and b: "is_matrix n p (vars b)" and n: "0 < n"
  shows "MultiplyMatrices a b vars = Inr (vars(b := matrix_product (vars a) (vars b)))"
proof -
  from b n have ne: "vars b \<noteq> []" and len0: "length (vars b ! 0) = p" and lenb: "length (vars b) = n"
    by (auto simp: is_matrix_def list_all_length)
  have cell: "(case ExtractColumn (vars b) j of Inl e \<Rightarrow> Inl e | Inr col \<Rightarrow> dot row col)
      = Inr (\<Sum>k<length row. row ! k * vars b ! k ! j)"
    if "row \<in> set (vars a)" and "j \<in> set [0..<length (vars b ! 0)]" for row j
  proof -
    from that a have lr: "length row = n" by (auto simp: is_matrix_def list_all_iff)
    from that len0 have "j < p" by simp
    then have "ExtractColumn (vars b) j = Inr (map (\<lambda>row. row ! j) (vars b))"
      using b by (rule ExtractColumn_ok[rotated])
    then show ?thesis using lr lenb by (simp add: dot_sum)
  qed
  have row: "mapE (\<lambda>j. case ExtractColumn (vars b) j of Inl e \<Rightarrow> Inl e | Inr col \<Rightarrow> dot row col)
        [0..<length (vars b ! 0)]
      = Inr (map (\<lambda>j. \<Sum>k<length row. row ! k * vars b ! k ! j) [0..<length (vars b ! 0)])"
    if "row \<in> set (vars a)" for row
    by (rule mapE_Inr) (rule cell[OF that])
  have "mapE (\<lambda>row. mapE (\<lambda>j. case ExtractColumn (vars b) j of Inl e \<Rightarrow> Inl e | Inr col \<Rightarrow> dot row col)
        [0..<length (vars b ! 0)]) (vars a) = Inr (matrix_product (vars a) (vars b))"
    unfolding matrix_product_def by (rule mapE_Inr) (rule row)
  then show ?thesis using ne by (simp add: MultiplyMatrices_def Let_def)
qed

lemma matrix_product_entry:
  "is_matrix m n a \<Longrightarrow> is_matrix n p b \<Longrightarrow> 0 < n \<Longrightarrow> i < m \<Longrightarrow> j < p \<Longrightarrow>
   matrix_product a b ! i ! j = (\<Sum>k<n. a ! i ! k * b ! k ! j)"
  by (auto simp: matrix_product_def is_matrix_def list_all_length)

lemma matrix_product_dims:
  "is_matrix m n a \<Longrightarrow> is_matrix n p b \<Longrightarrow> 0 < n \<Longrightarrow> is_matrix m p (matrix_product a b)"
  by (auto simp: matrix_product_def is_matrix_def list_all_length)

lemma is_matrix_4_4:
  "is_matrix 4 4 [[a0, a1, a2, a3], [b0, b1, b2, b3], [c0, c1, c2, c3], [d0, d1, d2, d3]]"
  by (simp add: is_matrix_def)

lemma lessThan_4: "{..<4::nat} = {0, 1, 2, 3}"
  by auto

lemma matrix_product_4_4:
  "matrix_product [[a0, a1, a2, a3], [b0, b1, b2, b3], [c0, c1, c2, c3], [d0, d1, d2, d3]] 
     [[x0, x1, x2, x3], [y0, y1, y2, y3], [z0, z1, z2, z3], [w0, w1, w2, w3]] = 
   [[a0 * x0 + a1 * y0 + a2 * z0 + a3 * w0, a0 * x1 + a1 * y1 + a2 * z1 + a3 * w1,
     a0 * x2 + a1 * y2 + a2 * z2 + a3 * w2, a0 * x3 + a1 * y3 + a2 * z3 + a3 * w3],
    [b0 * x0 + b1 * y0 + b2 * z0 + b3 * w0, b0 * x1 + b1 * y1 + b2 * z1 + b3 * w1,
     b0 * x2 + b1 * y2 + b2 * z2 + b3 * w2, b0 * x3 + b1 * y3 + b2 * z3 + b3 * w3],
    [c0 * x0 + c1 * y0 + c2 * z0 + c3 * w0, c0 * x1 + c1 * y1 + c2 * z1 + c3 * w1,
     c0 * x2 + c1 * y2 + c2 * z2 + c3 * w2, c0 * x3 + c1 * y3 + c2 * z3 + c3 * w3],
    [d0 * x0 + d1 * y0 + d2 * z0 + d3 * w0, d0 * x1 + d1 * y1 + d2 * z1 + d3 * w1,
     d0 * x2 + d1 * y2 + d2 * z2 + d3 * w2, d0 * x3 + d1 * y3 + d2 * z3 + d3 * w3]]"
  by (simp add: matrix_product_def upt_4 lessThan_4)

text \<open>
  Claim C2. For matrices \<open>a\<close> (\<open>m\<close> by \<open>n\<close>) and \<open>b\<close> (\<open>n\<close> by \<open>p\<close>, with at least one
  row) held by two different variables, \<^verbatim>\<open>MultiplyMatrices(&a, &b)\<close> returns without a
  panic; afterwards the variable of the second operand holds the \<open>m\<close> by \<open>p\<close> product,
  whose entry \<open>(i, j)\<close> is the dot product of row \<open>i\<close> of \<open>a\<close> with column \<open>j\<close> of \<open>b\<close>; the
  first operand and every other variable are unchanged.
\<close>

theorem multiply_replaces_second:
  assumes "is_matrix m n (vars a)" and "is_matrix n p (vars b)" and "0 < n" and "a \<noteq> b"
  shows "\<exists>vars'. MultiplyMatrices a b vars = Inr vars' \<and>
           is_matrix m p (vars' b) \<and>
           (\<forall>i<m. \<forall>j<p. vars' b ! i ! j = (\<Sum>k<n. vars a ! i ! k * vars b ! k ! j)) \<and>
           vars' a = vars a \<and>
           (\<forall>q. q \<noteq> b \<longrightarrow> vars' q = vars q)"
  using assms MultiplyMatrices_product[of m n vars a p b]
  by (auto simp: matrix_product_entry matrix_product_dims)


theorem multiply_replaces_second_witness:
  "\<exists>vars'. MultiplyMatrices Transform Edges ((\<lambda>_. [])
      (Transform := [[1, 0, 0, 1], [0, 1, 0, 0], [0, 0, 1, 0], [0, 0, 0, 1]],
       Edges := [[5, 7], [0, 1], [2, 3], [1, 1]])) = Inr vars' \<and>
     is_matrix 4 2 (vars' Edges) \<and>
     vars' Edges ! 0 ! 0 = 6 \<and> vars' Edges ! 0 ! 1 = 8 \<and> vars' Edges ! 3 ! 1 = 1 \<and>
     vars' Transform = [[1, 0, 0, 1], [0, 1, 0, 0], [0, 0, 1, 0], [0, 0, 0, 1]] \<and>
     vars' StepTransform = []"
  using multiply_replaces_second[of 4 4 "(\<lambda>_. [])
      (Transform := [[1, 0, 0, 1], [0, 1, 0, 0], [0, 0, 1, 0], [0, 0, 0, 1]],
       Edges := [[5, 7], [0, 1], [2, 3], [1, 1]])" Transform 2 Edges]
  by (force simp: is_matrix_def lessThan_4)


text \<open>
  Claim C1, as the code has it. When the running transform is empty, the step matrix
  is adopted unchanged. Otherwise (step \<open>S\<close> of \<open>m\<close> by \<open>n\<close>, transform \<open>T\<close> of \<open>n\<close> by
  \<open>p\<close>) the new transform is \<open>S \<times> T\<close>: the step is multiplied from the left, since
  \<^verbatim>\<open>MultiplyMatrices(&stepTransform, &transform)\<close> has the step as first operand.
\<close>

theorem composeStep_left_multiplies:
  "(vars Transform = [] \<longrightarrow> composeStep vars = Inr (vars(Transform := vars StepTransform))) \<and>
   (is_matrix m n (vars StepTransform) \<and> is_matrix n p (vars Transform) \<and> 0 < n \<longrightarrow>
      composeStep vars =
        Inr (vars(Transform := matrix_product (vars StepTransform) (vars Transform))))"
proof (intro conjI impI)
  assume "vars Transform = []"
  then show "composeStep vars = Inr (vars(Transform := vars StepTransform))"
    by (simp add: composeStep_def)
next
  assume h: "is_matrix m n (vars StepTransform) \<and> is_matrix n p (vars Transform) \<and> 0 < n"
  then have "vars Transform \<noteq> []" by (auto simp: is_matrix_def)
  with h show "composeStep vars =
      Inr (vars(Transform := matrix_product (vars StepTransform) (vars Transform)))"
    by (simp add: composeStep_def MultiplyMatrices_product[of m n vars StepTransform p Transform])
qed

theorem composeStep_left_multiplies_witness:
  "composeStep ((\<lambda>_. [])(StepTransform := [[2, 0, 0, 0], [0, 2, 0, 0], [0, 0, 2, 0], [0, 0, 0, 1]]))
     = Inr ((\<lambda>_. [])
        (StepTransform := [[2, 0, 0, 0], [0, 2, 0, 0], [0, 0, 2, 0], [0, 0, 0, 1]],
         Transform := [[2, 0, 0, 0], [0, 2, 0, 0], [0, 0, 2, 0], [0, 0, 0, 1]])) \<and>
   composeStep ((\<lambda>_. [])
      (Transform := [[1, 0, 0, 1], [0, 1, 0, 0], [0, 0, 1, 0], [0, 0, 0, 1]],
       StepTransform := [[2, 0, 0, 0], [0, 2, 0, 0], [0, 0, 2, 0], [0, 0, 0, 1]]))
     = Inr ((\<lambda>_. [])
      (Transform := [[2, 0, 0, 2], [0, 2, 0, 0], [0, 0, 2, 0], [0, 0, 0, 1]],
       StepTransform := [[2, 0, 0, 0], [0, 2, 0, 0], [0, 0, 2, 0], [0, 0, 0, 1]]))"
  using composeStep_left_multiplies[of "(\<lambda>_. [])(StepTransform := [[2, 0, 0, 0], [0, 2, 0, 0], [0, 0, 2, 0], [0, 0, 0, 1]])" 4 4 4]
    composeStep_left_multiplies[of "(\<lambda>_. [])
      (Transform := [[1, 0, 0, 1], [0, 1, 0, 0], [0, 0, 1, 0], [0, 0, 0, 1]],
       StepTransform := [[2, 0, 0, 0], [0, 2, 0, 0], [0, 0, 2, 0], [0, 0, 0, 1]])" 4 4 4]
  by (simp add: is_matrix_4_4 matrix_product_4_4 fun_upd_twist)

text \<open>
  The claim as stated (new transform \<open>T \<times> S\<close>) fails: with \<open>T\<close> the translation by
  \<open>(1, 0, 0)\<close> and \<open>S\<close> the dilation by \<open>(2, 2, 2)\<close> the code leaves \<open>S \<times> T\<close>, whose
  entry \<open>(0, 3)\<close> is 2, while \<open>T \<times> S\<close> has 1 there.
\<close>

theorem composeStep_order_counterexample:
  "composeStep ((\<lambda>_. [])
      (Transform := [[1, 0, 0, 1], [0, 1, 0, 0], [0, 0, 1, 0], [0, 0, 0, 1]],
       StepTransform := [[2, 0, 0, 0], [0, 2, 0, 0], [0, 0, 2, 0], [0, 0, 0, 1]]))
     = Inr ((\<lambda>_. [])
      (Transform := [[2, 0, 0, 2], [0, 2, 0, 0], [0, 0, 2, 0], [0, 0, 0, 1]],
       StepTransform := [[2, 0, 0, 0], [0, 2, 0, 0], [0, 0, 2, 0], [0, 0, 0, 1]])) \<and>
   matrix_product [[1, 0, 0, 1], [0, 1, 0, 0], [0, 0, 1, 0], [0, 0, 0, 1]]
                  [[2, 0, 0, 0], [0, 2, 0, 0], [0, 0, 2, 0], [0, 0, 0, 1]]
     = [[2, 0, 0, 1], [0, 2, 0, 0], [0, 0, 2, 0], [0, 0, 0, 1]]"
  by (simp add: composeStep_def MultiplyMatrices_product[of 4 4 _ StepTransform 4 Transform]
        is_matrix_4_4 matrix_product_4_4 fun_upd_twist)


section \<open>Binary64 rounding\<close>

text \<open>
  Go's \<^verbatim>\<open>float64\<close> arithmetic is IEEE 754 binary64: the exact result of an operation is
  rounded to the nearest value with a 53-bit significand, ties to the even significand.
  \<open>binade x\<close> is the exponent \<open>e\<close> with \<open>2^e \<le> x < 2^(e+1)\<close> for positive \<open>x\<close>; values
  below \<open>2^-1022\<close> are subnormal and share the spacing \<open>2^-1074\<close>.
\<close>

definition pow2 :: "int \<Rightarrow> real" where
  "pow2 e = (if 0 \<le> e then 2 ^ nat e else 1 / 2 ^ nat (- e))"

lemma ceiling_half_less:
  fixes t :: real
  assumes "1 < t"
  shows "\<lceil>t / 2\<rceil> < \<lceil>t\<rceil>"
proof (cases "2 \<le> t")
  case True
  then have "t / 2 \<le> t - 1" by simp
  then have "\<lceil>t / 2\<rceil> \<le> \<lceil>t - 1\<rceil>" by (rule ceiling_mono)
  then show ?thesis by simp
next
  case False
  with assms have "\<lceil>t / 2\<rceil> = 1" "\<lceil>t\<rceil> = 2" by (simp_all add: ceiling_eq_iff)
  then show ?thesis by simp
qed

function binade :: "real \<Rightarrow> int" where
  "binade x =
     (if x \<le> 0 then 0
      else if 2 \<le> x then binade (x / 2) + 1
      else if x < 1 then binade (x * 2) - 1
      else 0)"
  by pat_completeness auto
termination
proof (relation "measure (\<lambda>x. nat (2 * \<lceil>1 / x\<rceil> + \<lceil>x\<rceil>))", goal_cases)
  case 1
  show ?case by simp
next
  case (2 x)
  then have l: "\<lceil>x / 2\<rceil> < \<lceil>x\<rceil>" using ceiling_half_less[of x] by simp
  have e: "\<lceil>1 / (x / 2)\<rceil> = 1" "\<lceil>1 / x\<rceil> = 1"
    using 2 by (auto simp: ceiling_eq_iff field_simps)
  have p: "0 < 2 * \<lceil>1 / x\<rceil> + \<lceil>x\<rceil>" using 2 e by (simp add: add_pos_pos)
  show ?case unfolding in_measure using l e p by linarith
next
  case (3 x)
  then have x: "0 < x" "x < 1" by auto
  have a: "\<lceil>x * 2\<rceil> \<le> \<lceil>x\<rceil> + 1" using x by linarith
  have "1 < 1 / x" using x by simp
  from ceiling_half_less[OF this] have b: "\<lceil>1 / (x * 2)\<rceil> < \<lceil>1 / x\<rceil>"
    by (simp add: field_simps)
  have c: "0 < \<lceil>1 / (x * 2)\<rceil>" using x by (simp add: field_simps)
  have d: "0 < \<lceil>x\<rceil>" using x by simp
  show ?case unfolding in_measure using a b c d by linarith
qed

declare binade.simps [simp del]

text \<open>Rounding to the nearest integer, ties to even.\<close>

definition rne :: "real \<Rightarrow> int" where
  "rne q =
     (let n = \<lfloor>q\<rfloor>; r = q - of_int n
      in if r < 1 / 2 then n
         else if 1 / 2 < r then n + 1
         else if even n then n else n + 1)"

definition round64 :: "real \<Rightarrow> float64" where
  "round64 x =
     (if x = 0 then 0
      else let e = max (binade \<bar>x\<bar>) (- 1022);
               u = pow2 (e - 52)
           in of_int (rne (x / u)) * u)"

definition fadd :: "float64 \<Rightarrow> float64 \<Rightarrow> float64" where
  "fadd x y = round64 (x + y)"

definition fsub :: "float64 \<Rightarrow> float64 \<Rightarrow> float64" where
  "fsub x y = round64 (x - y)"

text \<open>
  The conversions \<^verbatim>\<open>int(f)\<close> (truncation towards zero) and \<^verbatim>\<open>float64(i)\<close>. Go's \<^verbatim>\<open>int\<close>
  is modelled by the unbounded integers: \<^verbatim>\<open>int(f)\<close> is as here for \<open>f\<close> within the range
  of \<^verbatim>\<open>int\<close>.
\<close>

definition int_of_float64 :: "float64 \<Rightarrow> int" where
  "int_of_float64 f = (if 0 \<le> f then \<lfloor>f\<rfloor> else \<lceil>f\<rceil>)"

definition float64_of_int :: "int \<Rightarrow> float64" where
  "float64_of_int i = round64 (of_int i)"

section \<open>Package display\<close>

text \<open>
  A colour is an \<^verbatim>\<open>[]int\<close>, a screen is \<^verbatim>\<open>[][][]int\<close>: rows of cells, row 0 on top.
  \<^verbatim>\<open>NewScreen\<close> allocates \<^verbatim>\<open>YRES\<close> rows of \<^verbatim>\<open>XRES\<close> black cells.
\<close>

type_synonym color = "int list"
type_synonym screen = "color list list"

definition XRES :: int where "XRES = 500"
definition YRES :: int where "YRES = 500"

definition NewScreen :: screen where
  "NewScreen = replicate (nat YRES) (replicate (nat XRES) [0, 0, 0])"

text \<open>The screens of the size \<^verbatim>\<open>NewScreen\<close> and \<^verbatim>\<open>ClearScreen\<close> make.\<close>

definition is_screen :: "screen \<Rightarrow> bool" where
  "is_screen s \<longleftrightarrow> length s = nat YRES \<and> list_all (\<lambda>row. length row = nat XRES) s"


section \<open>Package draw: rasterizer\<close>

text \<open>
  \<^verbatim>\<open>float64ToInt\<close>:
  \<^verbatim>\<open>if f-float64(int(f)) < 0.5 { return int(f) }; return int(f + 1)\<close>.
  The sum \<^verbatim>\<open>f + 1\<close> is a binary64 addition and is rounded before it is truncated.
\<close>

definition float64ToInt :: "float64 \<Rightarrow> int" where
  "float64ToInt f =
     (if fsub f (float64_of_int (int_of_float64 f)) < 1 / 2 then int_of_float64 f
      else int_of_float64 (fadd f 1))"


text \<open>
  \<^verbatim>\<open>plot\<close> writes the current draw colour (the package variable
  \<^verbatim>\<open>DefaultDrawColor\<close>, here an argument) at row \<^verbatim>\<open>YRES - float64ToInt(y) - 1\<close>,
  column \<^verbatim>\<open>float64ToInt(x)\<close>, when both are within the resolution. The indexing
  \<^verbatim>\<open>screen[newY][newX]\<close> itself panics on a screen that is smaller than that.
\<close>

definition plot :: "screen \<Rightarrow> color \<Rightarrow> float64 \<Rightarrow> float64 \<Rightarrow> error + screen" where
  "plot screen DefaultDrawColor x y =
     (let newX = float64ToInt x; newY = YRES - float64ToInt y - 1
      in if 0 \<le> newX \<and> newX < XRES \<and> 0 \<le> newY \<and> newY < YRES
         then (if nat newY < length screen \<and> nat newX < length (screen ! nat newY)
               then Inr (screen[nat newY := (screen ! nat newY)[nat newX := DefaultDrawColor]])
               else Inl IndexOutOfRange)
         else Inr screen)"

text \<open>
  \<^verbatim>\<open>DrawLine\<close>. Its five loops are the functions \<open>vertical\<close>, \<open>octant1\<close>, \<open>octant2\<close>,
  \<open>octant8\<close> and \<open>octant7\<close>; each returns the screen and the values of \<open>x\<close> and \<open>y\<close> it
  ends with, because the four tests on \<open>slope\<close> follow one another. The coordinates are
  exact reals here, so each loop ends; \<^verbatim>\<open>x++\<close> on a \<^verbatim>\<open>float64\<close> of magnitude \<open>2^53\<close> or
  more would not advance.
\<close>

function vertical :: "screen \<Rightarrow> color \<Rightarrow> float64 \<Rightarrow> float64 \<Rightarrow> float64 \<Rightarrow> error + screen" where
  "vertical screen c x y y1 =
     (if y \<le> y1
      then (case plot screen c x y of
              Inl e \<Rightarrow> Inl e
            | Inr screen' \<Rightarrow> vertical screen' c x (y + 1) y1)
      else Inr screen)"
  by pat_completeness auto
termination
  by (relation "measure (\<lambda>(screen, c, x, y, y1). nat (\<lfloor>y1 - y\<rfloor> + 1))") (auto, linarith)

declare vertical.simps [simp del]

function octant1 :: "screen \<Rightarrow> color \<Rightarrow> float64 \<Rightarrow> float64 \<Rightarrow> float64 \<Rightarrow> float64 \<Rightarrow>
    (float64 \<Rightarrow> float64 \<Rightarrow> float64 \<Rightarrow> error + (screen \<times> float64 \<times> float64))" where
  "octant1 screen c A B x1 y1 x y d =
     (if x \<le> x1 \<and> y \<le> y1
      then (case plot screen c x y of
              Inl e \<Rightarrow> Inl e
            | Inr screen' \<Rightarrow>
                if 0 < d then octant1 screen' c A B x1 y1 (x + 1) (y + 1) (d + 2 * B + 2 * A)
                else octant1 screen' c A B x1 y1 (x + 1) y (d + 2 * A))
      else Inr (screen, x, y))"
  by pat_completeness auto
termination
  by (relation "measure (\<lambda>(screen, c, A, B, x1, y1, x, y, d). nat (\<lfloor>x1 - x\<rfloor> + 1))") (auto, linarith+)

declare octant1.simps [simp del]


function octant2 :: "screen \<Rightarrow> color \<Rightarrow> float64 \<Rightarrow> float64 \<Rightarrow> float64 \<Rightarrow> float64 \<Rightarrow>
    (float64 \<Rightarrow> float64 \<Rightarrow> float64 \<Rightarrow> error + (screen \<times> float64 \<times> float64))" where
  "octant2 screen c A B x1 y1 x y d =
     (if x \<le> x1 \<and> y \<le> y1
      then (case plot screen c x y of
              Inl e \<Rightarrow> Inl e
            | Inr screen' \<Rightarrow>
                if d < 0 then octant2 screen' c A B x1 y1 (x + 1) (y + 1) (d + 2 * A + 2 * B)
                else octant2 screen' c A B x1 y1 x (y + 1) (d + 2 * B))
      else Inr (screen, x, y))"
  by pat_completeness auto
termination
  by (relation "measure (\<lambda>(screen, c, A, B, x1, y1, x, y, d). nat (\<lfloor>y1 - y\<rfloor> + 1))") (auto, linarith+)

declare octant2.simps [simp del]

function octant8 :: "screen \<Rightarrow> color \<Rightarrow> float64 \<Rightarrow> float64 \<Rightarrow> float64 \<Rightarrow> float64 \<Rightarrow>
    (float64 \<Rightarrow> float64 \<Rightarrow> float64 \<Rightarrow> error + (screen \<times> float64 \<times> float64))" where
  "octant8 screen c A B x1 y1 x y d =
     (if x \<le> x1 \<and> y1 \<le> y
      then (case plot screen c x y of
              Inl e \<Rightarrow> Inl e
            | Inr screen' \<Rightarrow>
                if d < 0 then octant8 screen' c A B x1 y1 (x + 1) (y - 1) (d - 2 * B + 2 * A)
                else octant8 screen' c A B x1 y1 (x + 1) y (d + 2 * A))
      else Inr (screen, x, y))"
  by pat_completeness auto
termination
  by (relation "measure (\<lambda>(screen, c, A, B, x1, y1, x, y, d). nat (\<lfloor>x1 - x\<rfloor> + 1))") (auto, linarith+)

declare octant8.simps [simp del]

function octant7 :: "screen \<Rightarrow> color \<Rightarrow> float64 \<Rightarrow> float64 \<Rightarrow> float64 \<Rightarrow> float64 \<Rightarrow>
    (float64 \<Rightarrow> float64 \<Rightarrow> float64 \<Rightarrow> error + (screen \<times> float64 \<times> float64))" where
  "octant7 screen c A B x1 y1 x y d =
     (if x \<le> x1 \<and> y1 \<le> y
      then (case plot screen c x y of
              Inl e \<Rightarrow> Inl e
            | Inr screen' \<Rightarrow>
                if 0 < d then octant7 screen' c A B x1 y1 (x + 1) (y - 1) (d + 2 * A - 2 * B)
                else octant7 screen' c A B x1 y1 x (y - 1) (d - 2 * B))
      else Inr (screen, x, y))"
  by pat_completeness auto
termination
  by (relation "measure (\<lambda>(screen, c, A, B, x1, y1, x, y, d). nat (\<lfloor>y - y1\<rfloor> + 1))") (auto, linarith+)

declare octant7.simps [simp del]

definition DrawLine :: "screen \<Rightarrow> color \<Rightarrow> float64 \<Rightarrow> float64 \<Rightarrow> float64 \<Rightarrow> float64 \<Rightarrow> error + screen" where
  "DrawLine screen c x0 y0 x1 y1 =
     (let (x0, x1, y0, y1) = (if x1 < x0 then (x1, x0, y1, y0) else (x0, x1, y0, y1));
          A = y1 - y0;
          B = x0 - x1;
          x = x0;
          y = y0
      in if B = 0
         then (let (y0, y1) = (if y1 < y0 then (y1, y0) else (y0, y1));
                   y = y0
               in vertical screen c x y y1)
         else
           (let slope = A / (- B) in
            case (if 0 \<le> slope \<and> slope \<le> 1 then octant1 screen c A B x1 y1 x y (2 * A + B)
                  else Inr (screen, x, y)) of
              Inl e \<Rightarrow> Inl e
            | Inr (screen, x, y) \<Rightarrow>
            (case (if 1 < slope then octant2 screen c A B x1 y1 x y (A + 2 * B)
                   else Inr (screen, x, y)) of
               Inl e \<Rightarrow> Inl e
             | Inr (screen, x, y) \<Rightarrow>
             (case (if slope < 0 \<and> - 1 \<le> slope then octant8 screen c A B x1 y1 x y (2 * A - B)
                    else Inr (screen, x, y)) of
                Inl e \<Rightarrow> Inl e
              | Inr (screen, x, y) \<Rightarrow>
              (case (if slope < - 1 then octant7 screen c A B x1 y1 x y (A - 2 * B)
                     else Inr (screen, x, y)) of
                 Inl e \<Rightarrow> Inl e
               | Inr (screen, x, y) \<Rightarrow> Inr screen)))))"

text \<open>
  \<^verbatim>\<open>DrawLines\<close>: \<^verbatim>\<open>for i := 0; i < len(edges[0])-1; i += 2\<close>, drawing the line from
  column \<open>i\<close> to column \<open>i + 1\<close> (their rows 0 and 1). \<^verbatim>\<open>edges[0]\<close> panics on a matrix
  with no rows.
\<close>

function DrawLines_from :: "nat \<Rightarrow> matrix \<Rightarrow> color \<Rightarrow> screen \<Rightarrow> error + screen" where
  "DrawLines_from i edges c screen =
     (if int i < int (length (edges ! 0)) - 1
      then (case ExtractColumn edges i of
              Inl e \<Rightarrow> Inl e
            | Inr point \<Rightarrow>
              (case ExtractColumn edges (i + 1) of
                 Inl e \<Rightarrow> Inl e
               | Inr nextPoint \<Rightarrow>
                 if length point < 2 \<or> length nextPoint < 2 then Inl IndexOutOfRange
                 else (case DrawLine screen c (point ! 0) (point ! 1) (nextPoint ! 0) (nextPoint ! 1) of
                         Inl e \<Rightarrow> Inl e
                       | Inr screen' \<Rightarrow> DrawLines_from (i + 2) edges c screen')))
      else Inr screen)"
  by pat_completeness auto
termination
  by (relation "measure (\<lambda>(i, edges, c, screen). length (edges ! 0) - i)") auto

declare DrawLines_from.simps [simp del]

definition DrawLines :: "matrix \<Rightarrow> color \<Rightarrow> screen \<Rightarrow> error + screen" where
  "DrawLines edges c screen =
     (if edges = [] then Inl IndexOutOfRange else DrawLines_from 0 edges c screen)"

section \<open>Facts about the rasterizer\<close>

text \<open>
  Claim C3 says that \<^verbatim>\<open>float64ToInt\<close> returns \<open>\<lfloor>f + 0.5\<rfloor>\<close> for every non-negative
  \<open>f\<close>. The code differs at \<open>f = 2 - 2^-52\<close>, the largest binary64 value below 2: its
  fractional part is not below 0.5, so the code returns \<^verbatim>\<open>int(f + 1)\<close>; the exact sum
  \<open>3 - 2^-52\<close> lies halfway between the binary64 neighbours \<open>3 - 2^-51\<close> and \<open>3\<close> and is
  rounded to \<open>3\<close>. The code returns 3 where \<open>\<lfloor>f + 0.5\<rfloor> = 2\<close>.
\<close>

theorem float64ToInt_below_two:
  "float64ToInt (2 - 1 / 2 ^ 52) = 3 \<and> \<lfloor>(2 - 1 / 2 ^ 52 :: real) + 1 / 2\<rfloor> = 2 \<and>
   fadd (2 - 1 / 2 ^ 52) 1 = 3"
  by (simp add: float64ToInt_def fsub_def fadd_def float64_of_int_def int_of_float64_def
      round64_def rne_def pow2_def binade.simps)

lemma is_screen_NewScreen: "is_screen NewScreen"
  by (simp add: is_screen_def NewScreen_def list_all_iff)

lemma is_screen_update:
  "is_screen s \<Longrightarrow> is_screen (s[i := (s ! i)[j := c]])"
  by (cases "i < length s") (auto simp: is_screen_def list_all_length nth_list_update)

lemma plot_is_screen:
  assumes "is_screen s"
  shows "plot s c x y =
     Inr (if 0 \<le> float64ToInt x \<and> float64ToInt x < XRES \<and>
             0 \<le> YRES - float64ToInt y - 1 \<and> YRES - float64ToInt y - 1 < YRES
          then s[nat (YRES - float64ToInt y - 1) :=
                   (s ! nat (YRES - float64ToInt y - 1))[nat (float64ToInt x) := c]]
          else s)"
  using assms by (auto simp: plot_def Let_def is_screen_def list_all_length)

lemma plot_preserves:
  "is_screen s \<Longrightarrow> \<exists>s'. plot s c x y = Inr s' \<and> is_screen s'"
  by (simp add: plot_is_screen is_screen_update)

text \<open>
  Claim C4. On a screen of \<^verbatim>\<open>YRES\<close> rows of \<^verbatim>\<open>XRES\<close> cells, \<^verbatim>\<open>plot\<close> never panics
  and keeps the size of the screen. With \<open>newX\<close> the rounded \<open>x\<close> and \<open>newY\<close> the flipped
  row \<open>YRES - 1 - round(y)\<close>: when both are within \<open>[0, XRES) \<times> [0, YRES)\<close> the cell at
  row \<open>newY\<close>, column \<open>newX\<close> gets the draw colour and every other cell is unchanged;
  otherwise the screen is unchanged.
\<close>

theorem plot_clips:
  assumes "is_screen s"
  shows "let newX = float64ToInt x;
             newY = YRES - 1 - float64ToInt y;
             inside = (0 \<le> newX \<and> newX < XRES \<and> 0 \<le> newY \<and> newY < YRES)
         in \<exists>s'. plot s c x y = Inr s' \<and> is_screen s' \<and>
              (\<forall>i<nat YRES. \<forall>j<nat XRES.
                 s' ! i ! j = (if inside \<and> int i = newY \<and> int j = newX then c else s ! i ! j)) \<and>
              (\<not> inside \<longrightarrow> s' = s)"
proof -
  have sw: "YRES - 1 - float64ToInt y = YRES - float64ToInt y - 1" by simp
  show ?thesis
    unfolding Let_def sw plot_is_screen[OF assms]
    using assms
    by (auto simp: is_screen_update is_screen_def list_all_length nth_list_update)
qed

theorem plot_clips_witness:
  "(\<exists>s'. plot NewScreen [255, 255, 0] 3 4 = Inr s' \<and> s' ! 495 ! 3 = [255, 255, 0] \<and>
         s' ! 495 ! 4 = [0, 0, 0]) \<and>
   plot NewScreen [255, 255, 0] 500 4 = Inr NewScreen \<and>
   plot NewScreen [255, 255, 0] 3 500 = Inr NewScreen"
proof -
  have f: "float64ToInt 3 = 3" "float64ToInt 4 = 4" "float64ToInt 500 = 500"
    by (simp_all add: float64ToInt_def fsub_def fadd_def float64_of_int_def int_of_float64_def
        round64_def rne_def pow2_def binade.simps)
  show ?thesis
    using plot_clips[OF is_screen_NewScreen, of 3 4 "[255, 255, 0]"]
      plot_clips[OF is_screen_NewScreen, of 500 4 "[255, 255, 0]"]
      plot_clips[OF is_screen_NewScreen, of 3 500 "[255, 255, 0]"]
    by (auto simp: Let_def f XRES_def YRES_def NewScreen_def)
qed


text \<open>
  The three lines of claim C5, evaluated on any screen of the full size. Row 499 of the
  screen is the logical row \<open>y = 0\<close>.
\<close>

lemma float64ToInt_small:
  "float64ToInt 0 = 0" "float64ToInt 1 = 1" "float64ToInt 2 = 2" "float64ToInt 3 = 3"
  "float64ToInt 4 = 4" "float64ToInt 5 = 5"
  by (simp_all add: float64ToInt_def fsub_def fadd_def float64_of_int_def int_of_float64_def
      round64_def rne_def pow2_def binade.simps)

lemma is_screen_length: "is_screen s \<Longrightarrow> length s = 500"
  by (simp add: is_screen_def YRES_def)

lemma is_screen_row: "is_screen s \<Longrightarrow> i < 500 \<Longrightarrow> length (s ! i) = 500"
  by (simp add: is_screen_def YRES_def XRES_def list_all_length)

lemma is_screen_row_update: "is_screen s \<Longrightarrow> length r = 500 \<Longrightarrow> is_screen (s[i := r])"
  by (cases "i < length s") (auto simp: is_screen_def YRES_def XRES_def list_all_length nth_list_update)

lemmas draw_eval = DrawLine_def vertical.simps octant1.simps octant2.simps octant8.simps
  octant7.simps plot_is_screen is_screen_row_update is_screen_row
  float64ToInt_small is_screen_length XRES_def YRES_def

lemma DrawLine_horizontal:
  assumes "is_screen s"
  shows "DrawLine s c 0 0 4 0 = Inr (s[499 := (s ! 499)[0 := c, 1 := c, 2 := c, 3 := c, 4 := c]])"
  using assms by (simp add: draw_eval)

lemma DrawLine_vertical:
  assumes "is_screen s"
  shows "DrawLine s c 0 0 0 4 =
    Inr (s[499 := (s ! 499)[0 := c], 498 := (s ! 498)[0 := c], 497 := (s ! 497)[0 := c],
           496 := (s ! 496)[0 := c], 495 := (s ! 495)[0 := c]])"
  using assms by (simp add: draw_eval)

lemma DrawLine_diagonal:
  assumes "is_screen s"
  shows "DrawLine s c 0 0 4 4 =
    Inr (s[499 := (s ! 499)[0 := c], 498 := (s ! 498)[1 := c], 497 := (s ! 497)[2 := c],
           496 := (s ! 496)[3 := c], 495 := (s ! 495)[4 := c]])"
  using assms by (simp add: draw_eval)


text \<open>
  A list of cells in which each cell follows the one before it by a step of 0 or 1 in
  \<open>x\<close> and in \<open>y\<close> (not both 0): connected (8-neighbours) and monotonic.
\<close>

fun chain8 :: "(nat \<times> nat) list \<Rightarrow> bool" where
  "chain8 (p # q # ps) \<longleftrightarrow>
     fst p \<le> fst q \<and> fst q \<le> fst p + 1 \<and> snd p \<le> snd q \<and> snd q \<le> snd p + 1 \<and> p \<noteq> q \<and>
     chain8 (q # ps)"
| "chain8 ps \<longleftrightarrow> True"

lemma horizontal_cells:
  assumes "is_screen s"
  shows "\<forall>x<nat XRES. \<forall>y<nat YRES.
     (s[499 := (s ! 499)[0 := c, 1 := c, 2 := c, 3 := c, 4 := c]]) ! (nat YRES - 1 - y) ! x =
       (if (x, y) \<in> set [(0, 0), (1, 0), (2, 0), (3, 0), (4, 0)] then c else s ! (nat YRES - 1 - y) ! x)"
  using assms
  by (auto simp: nth_list_update is_screen_length is_screen_row XRES_def YRES_def)

lemma vertical_cells:
  assumes "is_screen s"
  shows "\<forall>x<nat XRES. \<forall>y<nat YRES.
     (s[499 := (s ! 499)[0 := c], 498 := (s ! 498)[0 := c], 497 := (s ! 497)[0 := c],
           496 := (s ! 496)[0 := c], 495 := (s ! 495)[0 := c]]) ! (nat YRES - 1 - y) ! x =
       (if (x, y) \<in> set [(0, 0), (0, 1), (0, 2), (0, 3), (0, 4)] then c else s ! (nat YRES - 1 - y) ! x)"
  using assms
  by (auto simp: nth_list_update is_screen_length is_screen_row XRES_def YRES_def)

lemma diagonal_cells:
  assumes "is_screen s"
  shows "\<forall>x<nat XRES. \<forall>y<nat YRES.
     (s[499 := (s ! 499)[0 := c], 498 := (s ! 498)[1 := c], 497 := (s ! 497)[2 := c],
           496 := (s ! 496)[3 := c], 495 := (s ! 495)[4 := c]]) ! (nat YRES - 1 - y) ! x =
       (if (x, y) \<in> set [(0, 0), (1, 1), (2, 2), (3, 3), (4, 4)] then c else s ! (nat YRES - 1 - y) ! x)"
  using assms
  by (auto simp: nth_list_update is_screen_length is_screen_row XRES_def YRES_def)

text \<open>
  Claim C5. On a screen of the full size, \<^verbatim>\<open>DrawLine(screen, 0, 0, 4, 0)\<close> sets exactly the
  five cells \<open>(0,0) \<dots> (4,0)\<close> (cell \<open>(x, y)\<close> is row \<open>YRES - 1 - y\<close>, column \<open>x\<close>) and
  leaves every other cell as it was; \<^verbatim>\<open>DrawLine(screen, 0, 0, 0, 4)\<close> sets exactly the
  five cells \<open>(0,0) \<dots> (0,4)\<close>; and \<^verbatim>\<open>DrawLine(screen, 0, 0, 4, 4)\<close> sets exactly the five
  cells \<open>(0,0), (1,1), (2,2), (3,3), (4,4)\<close>, a connected monotonic diagonal without gaps.
\<close>

theorem DrawLine_examples:
  assumes "is_screen s"
  shows "\<exists>h v d.
     DrawLine s c 0 0 4 0 = Inr h \<and> DrawLine s c 0 0 0 4 = Inr v \<and> DrawLine s c 0 0 4 4 = Inr d \<and>
     is_screen h \<and> is_screen v \<and> is_screen d \<and>
     (\<forall>x<nat XRES. \<forall>y<nat YRES. h ! (nat YRES - 1 - y) ! x =
        (if (x, y) \<in> set [(0, 0), (1, 0), (2, 0), (3, 0), (4, 0)] then c
         else s ! (nat YRES - 1 - y) ! x)) \<and>
     (\<forall>x<nat XRES. \<forall>y<nat YRES. v ! (nat YRES - 1 - y) ! x =
        (if (x, y) \<in> set [(0, 0), (0, 1), (0, 2), (0, 3), (0, 4)] then c
         else s ! (nat YRES - 1 - y) ! x)) \<and>
     (\<forall>x<nat XRES. \<forall>y<nat YRES. d ! (nat YRES - 1 - y) ! x =
        (if (x, y) \<in> set [(0, 0), (1, 1), (2, 2), (3, 3), (4, 4)] then c
         else s ! (nat YRES - 1 - y) ! x)) \<and>
     chain8 [(0, 0), (1, 1), (2, 2), (3, 3), (4, 4)] \<and>
     distinct [(0::nat, 0::nat), (1, 1), (2, 2), (3, 3), (4, 4)]"
proof -
  have "is_screen (s[499 := (s ! 499)[0 := c, 1 := c, 2 := c, 3 := c, 4 := c]])"
    "is_screen (s[499 := (s ! 499)[0 := c], 498 := (s ! 498)[0 := c], 497 := (s ! 497)[0 := c],
           496 := (s ! 496)[0 := c], 495 := (s ! 495)[0 := c]])"
    "is_screen (s[499 := (s ! 499)[0 := c], 498 := (s ! 498)[1 := c], 497 := (s ! 497)[2 := c],
           496 := (s ! 496)[3 := c], 495 := (s ! 495)[4 := c]])"
    using assms by (simp_all add: is_screen_row_update is_screen_row)
  then show ?thesis
    using horizontal_cells[OF assms, of c] vertical_cells[OF assms, of c] diagonal_cells[OF assms, of c]
    unfolding DrawLine_horizontal[OF assms] DrawLine_vertical[OF assms] DrawLine_diagonal[OF assms]
    by simp
qed

theorem DrawLine_examples_witness:
  "\<exists>h v d.
     DrawLine NewScreen [255, 255, 255] 0 0 4 0 = Inr h \<and>
     DrawLine NewScreen [255, 255, 255] 0 0 0 4 = Inr v \<and>
     DrawLine NewScreen [255, 255, 255] 0 0 4 4 = Inr d \<and>
     h ! 499 ! 4 = [255, 255, 255] \<and> h ! 499 ! 5 = [0, 0, 0] \<and> h ! 498 ! 0 = [0, 0, 0] \<and>
     v ! 495 ! 0 = [255, 255, 255] \<and> v ! 494 ! 0 = [0, 0, 0] \<and> v ! 499 ! 1 = [0, 0, 0] \<and>
     d ! 496 ! 3 = [255, 255, 255] \<and> d ! 496 ! 2 = [0, 0, 0] \<and> d ! 494 ! 5 = [0, 0, 0]"
proof -
  let ?c = "[255, 255, 255] :: color"
  from DrawLine_examples[OF is_screen_NewScreen, of ?c] obtain h v d where
    r: "DrawLine NewScreen ?c 0 0 4 0 = Inr h" "DrawLine NewScreen ?c 0 0 0 4 = Inr v"
       "DrawLine NewScreen ?c 0 0 4 4 = Inr d" and
    h: "\<forall>x<nat XRES. \<forall>y<nat YRES. h ! (nat YRES - 1 - y) ! x =
        (if (x, y) \<in> set [(0, 0), (1, 0), (2, 0), (3, 0), (4, 0)] then ?c
         else NewScreen ! (nat YRES - 1 - y) ! x)" and
    v: "\<forall>x<nat XRES. \<forall>y<nat YRES. v ! (nat YRES - 1 - y) ! x =
        (if (x, y) \<in> set [(0, 0), (0, 1), (0, 2), (0, 3), (0, 4)] then ?c
         else NewScreen ! (nat YRES - 1 - y) ! x)" and
    d: "\<forall>x<nat XRES. \<forall>y<nat YRES. d ! (nat YRES - 1 - y) ! x =
        (if (x, y) \<in> set [(0, 0), (1, 1), (2, 2), (3, 3), (4, 4)] then ?c
         else NewScreen ! (nat YRES - 1 - y) ! x)"
    by blast
  have "h ! 499 ! 4 = ?c" "h ! 499 ! 5 = [0, 0, 0]" "h ! 498 ! 0 = [0, 0, 0]"
    using h[rule_format, of 4 0] h[rule_format, of 5 0] h[rule_format, of 0 1]
    by (simp_all add: XRES_def YRES_def NewScreen_def)
  moreover have "v ! 495 ! 0 = ?c" "v ! 494 ! 0 = [0, 0, 0]" "v ! 499 ! 1 = [0, 0, 0]"
    using v[rule_format, of 0 4] v[rule_format, of 0 5] v[rule_format, of 1 0]
    by (simp_all add: XRES_def YRES_def NewScreen_def)
  moreover have "d ! 496 ! 3 = ?c" "d ! 496 ! 2 = [0, 0, 0]" "d ! 494 ! 5 = [0, 0, 0]"
    using d[rule_format, of 3 3] d[rule_format, of 2 3] d[rule_format, of 5 5]
    by (simp_all add: XRES_def YRES_def NewScreen_def)
  ultimately show ?thesis using r by simp
qed


section \<open>Drawing the edge matrix\<close>

text \<open>
  Running a fallible step over a list of inputs, threading the screen; and the line
  of edge \<open>k\<close>: from column \<open>2k\<close> to column \<open>2k + 1\<close> of the edge matrix, rows 0 and 1.
\<close>

fun foldE :: "('a \<Rightarrow> 's \<Rightarrow> error + 's) \<Rightarrow> 'a list \<Rightarrow> 's \<Rightarrow> error + 's" where
  "foldE f [] s = Inr s"
| "foldE f (x # xs) s = (case f x s of Inl e \<Rightarrow> Inl e | Inr s' \<Rightarrow> foldE f xs s')"

definition draw_edge :: "matrix \<Rightarrow> color \<Rightarrow> nat \<Rightarrow> screen \<Rightarrow> error + screen" where
  "draw_edge edges c k screen =
     DrawLine screen c (edges ! 0 ! (2 * k)) (edges ! 1 ! (2 * k))
       (edges ! 0 ! (2 * k + 1)) (edges ! 1 ! (2 * k + 1))"

lemma vertical_is_screen:
  "is_screen s \<Longrightarrow> \<exists>s'. vertical s c x y y1 = Inr s' \<and> is_screen s'"
proof (induction s c x y y1 rule: vertical.induct)
  case (1 screen c x y y1)
  show ?case
  proof (cases "y \<le> y1")
    case True
    from plot_preserves[OF "1.prems", of c x y] obtain s' where
      p: "plot screen c x y = Inr s'" and s': "is_screen s'" by blast
    from "1.IH"[OF True p s'] show ?thesis
      by (subst vertical.simps) (simp add: True p)
  next
    case False
    then show ?thesis using "1.prems" by (subst vertical.simps) simp
  qed
qed

lemma octant1_is_screen:
  "is_screen s \<Longrightarrow> \<exists>s' x' y'. octant1 s c A B x1 y1 x y d = Inr (s', x', y') \<and> is_screen s'"
proof (induction s c A B x1 y1 x y d rule: octant1.induct)
  case (1 screen c A B x1 y1 x y d)
  show ?case
  proof (cases "x \<le> x1 \<and> y \<le> y1")
    case True
    from plot_preserves[OF "1.prems", of c x y] obtain s' where
      p: "plot screen c x y = Inr s'" and s': "is_screen s'" by blast
    show ?thesis
    proof (cases "0 < d")
      case d: True
      from "1.IH"(1)[OF True p d s'] show ?thesis
        by (subst octant1.simps) (simp add: True p d)
    next
      case d: False
      from "1.IH"(2)[OF True p d s'] show ?thesis
        by (subst octant1.simps) (simp add: True p d)
    qed
  next
    case False
    then show ?thesis using "1.prems" by (subst octant1.simps) auto
  qed
qed


lemma octant2_is_screen:
  "is_screen s \<Longrightarrow> \<exists>s' x' y'. octant2 s c A B x1 y1 x y d = Inr (s', x', y') \<and> is_screen s'"
proof (induction s c A B x1 y1 x y d rule: octant2.induct)
  case (1 screen c A B x1 y1 x y d)
  show ?case
  proof (cases "x \<le> x1 \<and> y \<le> y1")
    case True
    from plot_preserves[OF "1.prems", of c x y] obtain s' where
      p: "plot screen c x y = Inr s'" and s': "is_screen s'" by blast
    show ?thesis
    proof (cases "d < 0")
      case d: True
      from "1.IH"(1)[OF True p d s'] show ?thesis
        by (subst octant2.simps) (simp add: True p d)
    next
      case d: False
      from "1.IH"(2)[OF True p d s'] show ?thesis
        by (subst octant2.simps) (simp add: True p d)
    qed
  next
    case False
    then show ?thesis using "1.prems" by (subst octant2.simps) auto
  qed
qed

lemma octant8_is_screen:
  "is_screen s \<Longrightarrow> \<exists>s' x' y'. octant8 s c A B x1 y1 x y d = Inr (s', x', y') \<and> is_screen s'"
proof (induction s c A B x1 y1 x y d rule: octant8.induct)
  case (1 screen c A B x1 y1 x y d)
  show ?case
  proof (cases "x \<le> x1 \<and> y1 \<le> y")
    case True
    from plot_preserves[OF "1.prems", of c x y] obtain s' where
      p: "plot screen c x y = Inr s'" and s': "is_screen s'" by blast
    show ?thesis
    proof (cases "d < 0")
      case d: True
      from "1.IH"(1)[OF True p d s'] show ?thesis
        by (subst octant8.simps) (simp add: True p d)
    next
      case d: False
      from "1.IH"(2)[OF True p d s'] show ?thesis
        by (subst octant8.simps) (simp add: True p d)
    qed
  next
    case False
    then show ?thesis using "1.prems" by (subst octant8.simps) auto
  qed
qed

lemma octant7_is_screen:
  "is_screen s \<Longrightarrow> \<exists>s' x' y'. octant7 s c A B x1 y1 x y d = Inr (s', x', y') \<and> is_screen s'"
proof (induction s c A B x1 y1 x y d rule: octant7.induct)
  case (1 screen c A B x1 y1 x y d)
  show ?case
  proof (cases "x \<le> x1 \<and> y1 \<le> y")
    case True
    from plot_preserves[OF "1.prems", of c x y] obtain s' where
      p: "plot screen c x y = Inr s'" and s': "is_screen s'" by blast
    show ?thesis
    proof (cases "0 < d")
      case d: True
      from "1.IH"(1)[OF True p d s'] show ?thesis
        by (subst octant7.simps) (simp add: True p d)
    next
      case d: False
      from "1.IH"(2)[OF True p d s'] show ?thesis
        by (subst octant7.simps) (simp add: True p d)
    qed
  next
    case False
    then show ?thesis using "1.prems" by (subst octant7.simps) auto
  qed
qed

lemma DrawLine_is_screen:
  assumes "is_screen s"
  shows "\<exists>s'. DrawLine s c x0 y0 x1 y1 = Inr s' \<and> is_screen s'"
proof -
  obtain X0 X1 Y0 Y1 where
    sw: "(if x1 < x0 then (x1, x0, y1, y0) else (x0, x1, y0, y1)) = (X0, X1, Y0, Y1)"
    by (cases "x1 < x0") simp_all
  let ?A = "Y1 - Y0"
  let ?B = "X0 - X1"
  show ?thesis
  proof (cases "?B = 0")
    case True
    obtain V0 V1 where v: "(if Y1 < Y0 then (Y1, Y0) else (Y0, Y1)) = (V0, V1)"
      by (cases "Y1 < Y0") simp_all
    from vertical_is_screen[OF assms, of c X0 V0 V1] show ?thesis
      unfolding DrawLine_def Let_def sw prod.case v using True by (simp only: simp_thms if_True)
  next
    case False
    let ?slope = "?A / (- ?B)"
    obtain s1 a1 b1 where
      e1: "(if 0 \<le> ?slope \<and> ?slope \<le> 1 then octant1 s c ?A ?B X1 Y1 X0 Y0 (2 * ?A + ?B)
            else Inr (s, X0, Y0)) = Inr (s1, a1, b1)" and i1: "is_screen s1"
      using octant1_is_screen[OF assms, of c ?A ?B X1 Y1 X0 Y0 "2 * ?A + ?B"] assms
      by (cases "0 \<le> ?slope \<and> ?slope \<le> 1") auto
    obtain s2 a2 b2 where
      e2: "(if 1 < ?slope then octant2 s1 c ?A ?B X1 Y1 a1 b1 (?A + 2 * ?B)
            else Inr (s1, a1, b1)) = Inr (s2, a2, b2)" and i2: "is_screen s2"
      using octant2_is_screen[OF i1, of c ?A ?B X1 Y1 a1 b1 "?A + 2 * ?B"] i1
      by (cases "1 < ?slope") auto
    obtain s3 a3 b3 where
      e3: "(if ?slope < 0 \<and> - 1 \<le> ?slope then octant8 s2 c ?A ?B X1 Y1 a2 b2 (2 * ?A - ?B)
            else Inr (s2, a2, b2)) = Inr (s3, a3, b3)" and i3: "is_screen s3"
      using octant8_is_screen[OF i2, of c ?A ?B X1 Y1 a2 b2 "2 * ?A - ?B"] i2
      by (cases "?slope < 0 \<and> - 1 \<le> ?slope") auto
    obtain s4 a4 b4 where
      e4: "(if ?slope < - 1 then octant7 s3 c ?A ?B X1 Y1 a3 b3 (?A - 2 * ?B)
            else Inr (s3, a3, b3)) = Inr (s4, a4, b4)" and i4: "is_screen s4"
      using octant7_is_screen[OF i3, of c ?A ?B X1 Y1 a3 b3 "?A - 2 * ?B"] i3
      by (cases "?slope < - 1") auto
    have "DrawLine s c x0 y0 x1 y1 = Inr s4"
      unfolding DrawLine_def Let_def sw prod.case using False
      by (simp only: simp_thms if_False e1 e2 e3 e4 sum.case prod.case)
    with i4 show ?thesis by blast
  qed
qed


lemma DrawLines_from_step:
  assumes m: "is_matrix r N edges" and r: "2 \<le> r" and j: "2 * k + 1 < N"
  shows "DrawLines_from (2 * k) edges c s =
     (case draw_edge edges c k s of
        Inl e \<Rightarrow> Inl e
      | Inr s' \<Rightarrow> DrawLines_from (2 * k + 2) edges c s')"
proof -
  from m r have l0: "length (edges ! 0) = N" and len: "length edges = r"
    by (auto simp: is_matrix_def list_all_length)
  have c1: "int (2 * k) < int (length (edges ! 0)) - 1" unfolding l0 using j by linarith
  from j have j0: "2 * k < N" by simp
  have ec: "ExtractColumn edges (2 * k) = Inr (map (\<lambda>row. row ! (2 * k)) edges)"
     "ExtractColumn edges (2 * k + 1) = Inr (map (\<lambda>row. row ! (2 * k + 1)) edges)"
    using ExtractColumn_ok[OF m j0] ExtractColumn_ok[OF m j] by simp_all
  have lens: "\<not> (length (map (\<lambda>row. row ! (2 * k)) edges) < 2 \<or>
                length (map (\<lambda>row. row ! (2 * k + 1)) edges) < 2)"
    using len r by simp
  have p: "map (\<lambda>row. row ! i) edges ! 0 = edges ! 0 ! i"
          "map (\<lambda>row. row ! i) edges ! 1 = edges ! 1 ! i" for i
    using len r by simp_all
  show ?thesis
    by (subst DrawLines_from.simps)
      (simp only: c1 if_True ec sum.case lens if_False p draw_edge_def)
qed

lemma DrawLines_from_pairs:
  assumes m: "is_matrix r N edges" and r: "2 \<le> r"
  shows "k \<le> N div 2 \<Longrightarrow>
     DrawLines_from (2 * k) edges c s = foldE (draw_edge edges c) [k..<N div 2] s"
proof (induction "N div 2 - k" arbitrary: k s)
  case 0
  then have k: "k = N div 2" by simp
  from m r have l0: "length (edges ! 0) = N" by (auto simp: is_matrix_def list_all_length)
  have "\<not> int (2 * k) < int (length (edges ! 0)) - 1" unfolding l0 k by linarith
  then have "DrawLines_from (2 * k) edges c s = Inr s"
    by (subst DrawLines_from.simps) (simp only: if_False)
  then show ?case by (simp add: k)
next
  case (Suc n)
  then have k: "k < N div 2" by simp
  then have j: "2 * k + 1 < N" by linarith
  have upt: "[k..<N div 2] = k # [Suc k..<N div 2]" using k by (simp add: upt_conv_Cons)
  have IH: "DrawLines_from (2 * k + 2) edges c s' = foldE (draw_edge edges c) [Suc k..<N div 2] s'" for s'
    using Suc.hyps(1)[of "Suc k" s'] Suc.hyps(2) k by (simp)
  show ?case
    unfolding DrawLines_from_step[OF m r j] upt foldE.simps IH ..
qed


lemma foldE_cong:
  "(\<And>x s. x \<in> set xs \<Longrightarrow> f x s = g x s) \<Longrightarrow> foldE f xs s = foldE g xs s"
  by (induction xs arbitrary: s) (simp_all split: sum.splits)

lemma foldE_is_screen:
  assumes "\<And>x s. is_screen s \<Longrightarrow> \<exists>s'. f x s = Inr s' \<and> is_screen s'"
  shows "is_screen s \<Longrightarrow> \<exists>s'. foldE f xs s = Inr s' \<and> is_screen s'"
proof (induction xs arbitrary: s)
  case Nil
  then show ?case by simp
next
  case (Cons x xs)
  from assms[OF Cons.prems, of x] obtain s1 where "f x s = Inr s1" "is_screen s1" by blast
  with Cons.IH[of s1] show ?case by simp
qed

lemma DrawLines_pairs:
  assumes "is_matrix r N edges" and "2 \<le> r"
  shows "DrawLines edges c s = foldE (draw_edge edges c) [0..<N div 2] s"
proof -
  from assms have "edges \<noteq> []" by (auto simp: is_matrix_def)
  then show ?thesis
    using DrawLines_from_pairs[OF assms, of 0 c s] by (simp add: DrawLines_def)
qed

text \<open>
  Claim C10. For an edge matrix with at least two rows and an odd number \<open>N\<close> of
  columns, and a screen of the full size: \<^verbatim>\<open>DrawLines\<close> draws the lines of the edges
  \<open>k < (N - 1) / 2\<close>, in order, and nothing else; the columns \<open>2k\<close> and \<open>2k + 1\<close> it reads
  all lie below \<open>N - 1\<close>; it returns without a panic; and the result does not depend on
  the final column (any edge matrix of the same shape that agrees on the first \<open>N - 1\<close>
  columns is drawn the same).
\<close>

theorem DrawLines_odd:
  assumes m: "is_matrix r N edges" and r: "2 \<le> r" and odd: "odd N" and s: "is_screen s"
  shows "DrawLines edges c s = foldE (draw_edge edges c) [0..<(N - 1) div 2] s \<and>
         (\<forall>k<(N - 1) div 2. 2 * k + 1 < N - 1) \<and>
         (\<exists>s'. DrawLines edges c s = Inr s' \<and> is_screen s') \<and>
         (\<forall>edges'. is_matrix r N edges' \<and> (\<forall>i<r. \<forall>j<N - 1. edges' ! i ! j = edges ! i ! j) \<longrightarrow>
            DrawLines edges' c s = DrawLines edges c s)"
proof (intro conjI allI impI)
  from odd have half: "N div 2 = (N - 1) div 2" by presburger
  show eq: "DrawLines edges c s = foldE (draw_edge edges c) [0..<(N - 1) div 2] s"
    using DrawLines_pairs[OF m r, of c s] by (simp only: half)
  show "2 * k + 1 < N - 1" if "k < (N - 1) div 2" for k
    using that odd by presburger
  show "\<exists>s'. DrawLines edges c s = Inr s' \<and> is_screen s'"
    unfolding eq
    by (rule foldE_is_screen[OF _ s]) (simp only: draw_edge_def DrawLine_is_screen)
  show "DrawLines edges' c s = DrawLines edges c s"
    if h: "is_matrix r N edges' \<and> (\<forall>i<r. \<forall>j<N - 1. edges' ! i ! j = edges ! i ! j)" for edges'
  proof -
    from h have m': "is_matrix r N edges'" and
      same: "\<And>i j. i < r \<Longrightarrow> j < N - 1 \<Longrightarrow> edges' ! i ! j = edges ! i ! j" by auto
    have "draw_edge edges' c k s1 = draw_edge edges c k s1" if "k \<in> set [0..<(N - 1) div 2]" for k s1
    proof -
      from that have "k < (N - 1) div 2" by simp
      with odd have "2 * k < N - 1" "2 * k + 1 < N - 1" by presburger+
      with same[of 0] same[of 1] r show ?thesis by (simp add: draw_edge_def)
    qed
    then have "foldE (draw_edge edges' c) [0..<(N - 1) div 2] s =
               foldE (draw_edge edges c) [0..<(N - 1) div 2] s"
      by (rule foldE_cong)
    then show ?thesis
      using DrawLines_pairs[OF m' r, of c s] eq by (simp only: half)
  qed
qed


theorem DrawLines_odd_witness:
  "DrawLines [[0, 4, 9], [0, 0, 9], [0, 0, 0], [1, 1, 1]] [255, 255, 0] NewScreen =
     DrawLine NewScreen [255, 255, 0] 0 0 4 0 \<and>
   (\<exists>s'. DrawLines [[0, 4, 9], [0, 0, 9], [0, 0, 0], [1, 1, 1]] [255, 255, 0] NewScreen = Inr s' \<and>
      is_screen s') \<and>
   DrawLines [[0, 4, 7], [0, 0, 7], [0, 0, 7], [1, 1, 7]] [255, 255, 0] NewScreen =
     DrawLines [[0, 4, 9], [0, 0, 9], [0, 0, 0], [1, 1, 1]] [255, 255, 0] NewScreen"
proof -
  let ?e = "[[0, 4, 9], [0, 0, 9], [0, 0, 0], [1, 1, 1]] :: matrix"
  let ?e' = "[[0, 4, 7], [0, 0, 7], [0, 0, 7], [1, 1, 7]] :: matrix"
  have m: "is_matrix 4 3 ?e" and m': "is_matrix 4 3 ?e'" by (simp_all add: is_matrix_def)
  have same: "\<forall>i<4. \<forall>j<3 - 1. ?e' ! i ! j = ?e ! i ! j"
    by (auto simp: less_Suc_eq numeral_eq_Suc)
  let ?c = "[255, 255, 0] :: color"
  have th: "DrawLines ?e ?c NewScreen = foldE (draw_edge ?e ?c) [0..<(3 - 1) div 2] NewScreen \<and>
         (\<forall>k<(3 - 1) div 2. 2 * k + 1 < (3::nat) - 1) \<and>
         (\<exists>s'. DrawLines ?e ?c NewScreen = Inr s' \<and> is_screen s') \<and>
         (\<forall>edges'. is_matrix 4 3 edges' \<and> (\<forall>i<4. \<forall>j<3 - 1. edges' ! i ! j = ?e ! i ! j) \<longrightarrow>
            DrawLines edges' ?c NewScreen = DrawLines ?e ?c NewScreen)"
    by (rule DrawLines_odd[OF m _ _ is_screen_NewScreen]) simp_all
  obtain s1 where s1: "DrawLine NewScreen ?c 0 0 4 0 = Inr s1"
    using DrawLine_is_screen[OF is_screen_NewScreen] by blast
  from th have "DrawLines ?e ?c NewScreen = DrawLine NewScreen ?c 0 0 4 0"
    by (simp add: draw_edge_def s1)
  moreover from th have "\<exists>s'. DrawLines ?e ?c NewScreen = Inr s' \<and> is_screen s'"
    by blast
  moreover from th m' same have "DrawLines ?e' ?c NewScreen = DrawLines ?e ?c NewScreen"
    by blast
  ultimately show ?thesis by blast
qed


section \<open>Package draw: primitive generators\<close>

text \<open>
  The loops \<^verbatim>\<open>for t := 0.0; t <= hi; t += step { ... }\<close> of the generators. The counter
  is a \<^verbatim>\<open>float64\<close> and \<^verbatim>\<open>t += step\<close> is a rounded addition: how often the body runs
  depends on the rounding (with exact arithmetic \<open>t\<close> would reach \<open>1\<close> after 1000 steps of
  \<open>0.001\<close>; the binary64 sum is then \<open>1 + 3 * 2^-52\<close>). The loop need not end (a step of 0
  never advances), so the result is an \<open>option\<close>: \<open>None\<close> when it runs forever.
\<close>

partial_function (option) float_for ::
  "(float64 \<Rightarrow> 's \<Rightarrow> (error + 's) option) \<Rightarrow> float64 \<Rightarrow> float64 \<Rightarrow> float64 \<Rightarrow> 's \<Rightarrow> (error + 's) option" where
  "float_for body hi step t s =
     (if t \<le> hi
      then (case body t s of
              None \<Rightarrow> None
            | Some (Inl e) \<Rightarrow> Some (Inl e)
            | Some (Inr s') \<Rightarrow> float_for body hi step (fadd t step) s')
      else Some (Inr s))"


text \<open>
  \<^verbatim>\<open>AddPoint\<close> appends to the rows 0 to 3 of the edge matrix, and panics on a matrix
  with fewer rows. \<^verbatim>\<open>AddEdge\<close> reads \<^verbatim>\<open>params[0..5]\<close>. The constants \<^verbatim>\<open>0.001\<close> and
  \<^verbatim>\<open>0.01\<close> are the binary64 values nearest to them. \<^verbatim>\<open>math.Cos\<close>, \<^verbatim>\<open>math.Sin\<close> and
  \<^verbatim>\<open>math.Pow\<close> are the exact functions here. \<open>add_dots\<close> is the loop of \<^verbatim>\<open>AddSphere\<close>
  and \<^verbatim>\<open>AddTorus\<close> over the generated points.
\<close>

definition AddPoint :: "matrix \<Rightarrow> float64 \<Rightarrow> float64 \<Rightarrow> float64 \<Rightarrow> error + matrix" where
  "AddPoint m x y z =
     (if length m < 4 then Inl IndexOutOfRange
      else Inr (m[0 := m ! 0 @ [x], 1 := m ! 1 @ [y], 2 := m ! 2 @ [z], 3 := m ! 3 @ [1]]))"

definition AddEdge :: "matrix \<Rightarrow> float64 list \<Rightarrow> error + matrix" where
  "AddEdge m params =
     (if length params < 6 then Inl IndexOutOfRange
      else (case AddPoint m (params ! 0) (params ! 1) (params ! 2) of
              Inl e \<Rightarrow> Inl e
            | Inr m \<Rightarrow> AddPoint m (params ! 3) (params ! 4) (params ! 5)))"

definition AddCircle :: "matrix \<Rightarrow> float64 list \<Rightarrow> (error + matrix) option" where
  "AddCircle m params =
     (if length params < 4 then Some (Inl IndexOutOfRange)
      else let cx = params ! 0; cy = params ! 1; r = params ! 3
           in float_for
                (\<lambda>t m. Some (AddPoint m (r * cos (2 * pi * t) + cx) (r * sin (2 * pi * t) + cy) 0))
                1 (round64 (1 / 1000)) 0 m)"

definition CubicEval :: "float64 \<Rightarrow> matrix \<Rightarrow> error + float64" where
  "CubicEval x coefs =
     (if length coefs < 4 \<or> list_ex (\<lambda>row. row = []) (take 4 coefs) then Inl IndexOutOfRange
      else Inr (0 + coefs ! 0 ! 0 * x ^ 3 + coefs ! 1 ! 0 * x ^ 2 + coefs ! 2 ! 0 * x ^ 1
                  + coefs ! 3 ! 0 * x ^ 0))"

datatype curve_var = CoefGenerator | M

definition generateCurveCoefs ::
  "float64 \<Rightarrow> float64 \<Rightarrow> float64 \<Rightarrow> float64 \<Rightarrow> string \<Rightarrow> error + matrix" where
  "generateCurveCoefs p0 p1 p2 p3 curveType =
     (let coefGenerator =
            (if curveType = ''hermite'' then MakeHermite
             else if curveType = ''bezier'' then MakeBezier
             else []);
          m = [[p0], [p1], [p2], [p3]]
      in case MultiplyMatrices CoefGenerator M
                ((\<lambda>_. [])(CoefGenerator := coefGenerator, M := m)) of
           Inl e \<Rightarrow> Inl e
         | Inr vars \<Rightarrow> Inr (vars M))"

definition AddCurve :: "matrix \<Rightarrow> float64 \<Rightarrow> float64 \<Rightarrow> float64 \<Rightarrow> float64 \<Rightarrow>
    (float64 \<Rightarrow> float64 \<Rightarrow> float64 \<Rightarrow> float64 \<Rightarrow>
     (float64 \<Rightarrow> string \<Rightarrow> (error + matrix) option))" where
  "AddCurve m x0 y0 x1 y1 x2 y2 x3 y3 step curveType =
     (case generateCurveCoefs x0 x1 x2 x3 curveType of
        Inl e \<Rightarrow> Some (Inl e)
      | Inr xCoefs \<Rightarrow>
        (case generateCurveCoefs y0 y1 y2 y3 curveType of
           Inl e \<Rightarrow> Some (Inl e)
         | Inr yCoefs \<Rightarrow>
             float_for
               (\<lambda>t m. Some (case CubicEval t xCoefs of
                               Inl e \<Rightarrow> Inl e
                             | Inr x \<Rightarrow> (case CubicEval t yCoefs of
                                          Inl e \<Rightarrow> Inl e
                                        | Inr y \<Rightarrow> AddPoint m x y 0)))
               1 step 0 m))"

definition AddBox :: "matrix \<Rightarrow> float64 list \<Rightarrow> error + matrix" where
  "AddBox m a =
     (if length a < 6 then Inl IndexOutOfRange
      else let x = a ! 0; y = a ! 1; z = a ! 2; width = a ! 3; height = a ! 4; depth = a ! 5
           in foldE (\<lambda>params m. AddEdge m params)
                [[x, y, z, x + width, y, z],
                 [x, y, z, x, y - height, z],
                 [x, y, z, x, y, z - depth],
                 [x, y - height, z, x, y - height, z - depth],
                 [x, y - height, z, x + width, y - height, z],
                 [x, y - height, z - depth, x + width, y - height, z - depth],
                 [x + width, y - height, z, x + width, y - height, z - depth],
                 [x, y, z - depth, x + width, y, z - depth],
                 [x, y, z - depth, x, y - height, z - depth],
                 [x + width, y, z, x + width, y - height, z],
                 [x + width, y, z, x + width, y, z - depth],
                 [x + width, y, z - depth, x + width, y - height, z - depth]]
                m)"

definition GenerateSphere ::
  "float64 \<Rightarrow> float64 \<Rightarrow> float64 \<Rightarrow> float64 \<Rightarrow> (error + float64 list list) option" where
  "GenerateSphere cx cy cz r =
     float_for
       (\<lambda>i points.
          let fi = 2 * pi * i
          in float_for
               (\<lambda>j points.
                  let theta = 2 * pi * j;
                      x = r * cos theta + cx;
                      y = r * sin theta * cos fi + cy;
                      z = r * sin theta * sin fi + cz
                  in Some (Inr (points @ [[x, y, z]])))
               (1 / 2) (round64 (1 / 100)) 0 points)
       1 (round64 (1 / 100)) 0 []"

definition GenerateTorus ::
  "float64 \<Rightarrow> float64 \<Rightarrow> float64 \<Rightarrow> float64 \<Rightarrow> float64 \<Rightarrow> (error + float64 list list) option" where
  "GenerateTorus cx cy cz r2 r1 =
     float_for
       (\<lambda>i points.
          let fi = 2 * pi * i
          in float_for
               (\<lambda>j points.
                  let theta = 2 * pi * j;
                      x = cos fi * (r2 * cos theta + r1) + cx;
                      y = r2 * sin theta + cy;
                      z = - 1 * sin fi * (r2 * cos theta + r1) + cz
                  in Some (Inr (points @ [[x, y, z]])))
               1 (round64 (1 / 100)) 0 points)
       1 (round64 (1 / 100)) 0 []"

definition add_dots :: "matrix \<Rightarrow> float64 list list \<Rightarrow> error + matrix" where
  "add_dots m points =
     foldE (\<lambda>p m. if length p < 3 then Inl IndexOutOfRange
                   else AddEdge m [p ! 0, p ! 1, p ! 2, p ! 0 + 1, p ! 1 + 1, p ! 2 + 1])
       points m"

definition AddSphere :: "matrix \<Rightarrow> float64 list \<Rightarrow> (error + matrix) option" where
  "AddSphere m a =
     (if length a < 4 then Some (Inl IndexOutOfRange)
      else (case GenerateSphere (a ! 0) (a ! 1) (a ! 2) (a ! 3) of
              None \<Rightarrow> None
            | Some (Inl e) \<Rightarrow> Some (Inl e)
            | Some (Inr points) \<Rightarrow> Some (add_dots m points)))"

definition AddTorus :: "matrix \<Rightarrow> float64 list \<Rightarrow> (error + matrix) option" where
  "AddTorus m a =
     (if length a < 5 then Some (Inl IndexOutOfRange)
      else (case GenerateTorus (a ! 0) (a ! 1) (a ! 2) (a ! 3) (a ! 4) of
              None \<Rightarrow> None
            | Some (Inl e) \<Rightarrow> Some (Inl e)
            | Some (Inr points) \<Rightarrow> Some (add_dots m points)))"

section \<open>The values of a loop counter\<close>

text \<open>
  \<open>steps n hi step t\<close> lists the values the counter takes, starting at \<open>t\<close>, in at most
  \<open>n\<close> rounds; when the list is shorter than \<open>n\<close> the loop has ended, and has run its
  body once for each value. \<open>advance n hi step t\<close> is the counter after \<open>n\<close> rounds
  that all pass the test.
\<close>

fun steps :: "nat \<Rightarrow> float64 \<Rightarrow> float64 \<Rightarrow> float64 \<Rightarrow> float64 list" where
  "steps 0 hi step t = []"
| "steps (Suc n) hi step t = (if t \<le> hi then t # steps n hi step (fadd t step) else [])"

fun foldO :: "('a \<Rightarrow> 's \<Rightarrow> (error + 's) option) \<Rightarrow> 'a list \<Rightarrow> 's \<Rightarrow> (error + 's) option" where
  "foldO f [] s = Some (Inr s)"
| "foldO f (x # xs) s =
     (case f x s of None \<Rightarrow> None | Some (Inl e) \<Rightarrow> Some (Inl e) | Some (Inr s') \<Rightarrow> foldO f xs s')"

lemma float_for_steps:
  "length (steps n hi step t) < n \<Longrightarrow>
   float_for body hi step t s = foldO body (steps n hi step t) s"
proof (induction n arbitrary: t s)
  case 0
  then show ?case by simp
next
  case (Suc n)
  show ?case
  proof (cases "t \<le> hi")
    case True
    with Suc.prems have "length (steps n hi step (fadd t step)) < n" by simp
    from Suc.IH[OF this] show ?thesis
      by (subst float_for.simps) (simp add: True split: option.splits sum.splits)
  next
    case False
    then show ?thesis by (subst float_for.simps) simp
  qed
qed



fun advance :: "nat \<Rightarrow> float64 \<Rightarrow> float64 \<Rightarrow> float64 \<Rightarrow> float64 option" where
  "advance 0 hi step t = Some t"
| "advance (Suc n) hi step t = (if t \<le> hi then advance n hi step (fadd t step) else None)"

lemma advance_numeral:
  "advance (numeral k) hi step t =
     (if t \<le> hi then advance (pred_numeral k) hi step (fadd t step) else None)"
  by (simp add: numeral_eq_Suc)

lemma steps_advance:
  "advance n hi step t = Some t' \<Longrightarrow>
   length (steps (n + k) hi step t) = n + length (steps k hi step t')"
  by (induction n arbitrary: t) (simp_all split: if_splits)

lemma advance_add:
  "advance n hi step t = Some t' \<Longrightarrow> advance k hi step t' = Some t'' \<Longrightarrow>
   advance (n + k) hi step t = Some t''"
  by (induction n arbitrary: t) (simp_all split: if_splits)

lemma rne_nonneg: "0 \<le> q \<Longrightarrow> 0 \<le> rne q"
  by (simp add: rne_def Let_def)

lemma pow2_pos: "0 < pow2 e"
  by (simp add: pow2_def)

lemma round64_nonneg: "0 \<le> x \<Longrightarrow> 0 \<le> round64 x"
  by (simp add: round64_def Let_def rne_nonneg pow2_pos less_imp_le)

lemma steps_le: "t \<in> set (steps n hi step t0) \<Longrightarrow> t \<le> hi"
  by (induction n arbitrary: t0) (auto split: if_splits)

lemma fadd_nonneg: "0 \<le> x \<Longrightarrow> 0 \<le> y \<Longrightarrow> 0 \<le> fadd x y"
  by (simp add: fadd_def round64_nonneg)

lemma steps_nonneg:
  "0 \<le> step \<Longrightarrow> 0 \<le> t0 \<Longrightarrow> t \<in> set (steps n hi step t0) \<Longrightarrow> 0 \<le> t"
proof (induction n arbitrary: t0)
  case 0
  then show ?case by simp
next
  case (Suc n)
  from Suc.prems(3) have "t = t0 \<or> t \<in> set (steps n hi step (fadd t0 step))"
    by (auto split: if_splits)
  then show ?case
  proof
    assume "t = t0"
    with Suc.prems(2) show ?thesis by simp
  next
    assume "t \<in> set (steps n hi step (fadd t0 step))"
    with Suc.IH[OF Suc.prems(1) fadd_nonneg[OF Suc.prems(2) Suc.prems(1)]] show ?thesis .
  qed
qed

lemma steps_hd: "steps n hi step t0 \<noteq> [] \<Longrightarrow> steps n hi step t0 ! 0 = t0"
  by (cases n) (auto split: if_splits)

lemma steps_Suc:
  "Suc k < length (steps n hi step t0) \<Longrightarrow>
   steps n hi step t0 ! Suc k = fadd (steps n hi step t0 ! k) step"
proof (induction n arbitrary: t0 k)
  case 0
  then show ?case by simp
next
  case (Suc n)
  show ?case
  proof (cases "t0 \<le> hi")
    case True
    then have s: "steps (Suc n) hi step t0 = t0 # steps n hi step (fadd t0 step)" by simp
    show ?thesis
    proof (cases k)
      case 0
      with Suc.prems s have "steps n hi step (fadd t0 step) \<noteq> []" by auto
      from steps_hd[OF this] show ?thesis by (simp add: True 0)
    next
      case (Suc j)
      with Suc.prems s have "Suc j < length (steps n hi step (fadd t0 step))" by simp
      from Suc.IH[OF this] show ?thesis by (simp add: True Suc)
    qed
  next
    case False
    with Suc.prems show ?thesis by simp
  qed
qed

lemma length_4_conv: "length m = 4 \<longleftrightarrow> (\<exists>r0 r1 r2 r3. m = [r0, r1, r2, r3])"
  by (auto simp: length_Suc_conv numeral_eq_Suc)

lemma AddPoint_rows:
  "AddPoint [r0, r1, r2, r3] x y z = Inr [r0 @ [x], r1 @ [y], r2 @ [z], r3 @ [1]]"
  by (simp add: AddPoint_def)

lemma AddPoint_fold:
  "foldO (\<lambda>t m. Some (AddPoint m (fx t) (fy t) (fz t))) ts [r0, r1, r2, r3] =
   Some (Inr [r0 @ map fx ts, r1 @ map fy ts, r2 @ map fz ts, r3 @ map (\<lambda>t. 1) ts])"
  by (induction ts arbitrary: r0 r1 r2 r3) (simp_all add: AddPoint_rows)

text \<open>
  The counters of the generators, evaluated: 1000 rounds for \<^verbatim>\<open>t += 0.001\<close> up to 1,
  100 rounds for \<^verbatim>\<open>i += 0.01\<close> up to 1, and 50 rounds for \<^verbatim>\<open>j += 0.01\<close> up to 0.5.
\<close>

lemma round64_thousandth: "round64 (1 / 1000) = 1152921504606847 / 2 ^ 60"
  by (simp add: round64_def rne_def pow2_def binade.simps)

lemma round64_hundredth: "round64 (1 / 100) = 5764607523034235 / 2 ^ 59"
  by (simp add: round64_def rne_def pow2_def binade.simps)

lemma advance_circle_0:
  "advance 100 1 (1152921504606847 / 2 ^ 60) (0) = Some (7205759403792799 / 2 ^ 56)"
  by (simp add: advance_numeral fadd_def round64_def rne_def pow2_def binade.simps)

lemma advance_circle_1:
  "advance 100 1 (1152921504606847 / 2 ^ 60) (7205759403792799 / 2 ^ 56) = Some (7205759403792799 / 2 ^ 55)"
  by (simp add: advance_numeral fadd_def round64_def rne_def pow2_def binade.simps)

lemma advance_circle_2:
  "advance 100 1 (1152921504606847 / 2 ^ 60) (7205759403792799 / 2 ^ 55) = Some (5404319552844599 / 2 ^ 54)"
  by (simp add: advance_numeral fadd_def round64_def rne_def pow2_def binade.simps)

lemma advance_circle_3:
  "advance 100 1 (1152921504606847 / 2 ^ 60) (5404319552844599 / 2 ^ 54) = Some (7205759403792799 / 2 ^ 54)"
  by (simp add: advance_numeral fadd_def round64_def rne_def pow2_def binade.simps)

lemma advance_circle_4:
  "advance 100 1 (1152921504606847 / 2 ^ 60) (7205759403792799 / 2 ^ 54) = Some (4503599627370499 / 2 ^ 53)"
  by (simp add: advance_numeral fadd_def round64_def rne_def pow2_def binade.simps)

lemma advance_circle_5:
  "advance 100 1 (1152921504606847 / 2 ^ 60) (4503599627370499 / 2 ^ 53) = Some (5404319552844599 / 2 ^ 53)"
  by (simp add: advance_numeral fadd_def round64_def rne_def pow2_def binade.simps)

lemma advance_circle_6:
  "advance 100 1 (1152921504606847 / 2 ^ 60) (5404319552844599 / 2 ^ 53) = Some (6305039478318699 / 2 ^ 53)"
  by (simp add: advance_numeral fadd_def round64_def rne_def pow2_def binade.simps)

lemma advance_circle_7:
  "advance 100 1 (1152921504606847 / 2 ^ 60) (6305039478318699 / 2 ^ 53) = Some (7205759403792799 / 2 ^ 53)"
  by (simp add: advance_numeral fadd_def round64_def rne_def pow2_def binade.simps)

lemma advance_circle_8:
  "advance 100 1 (1152921504606847 / 2 ^ 60) (7205759403792799 / 2 ^ 53) = Some (8106479329266899 / 2 ^ 53)"
  by (simp add: advance_numeral fadd_def round64_def rne_def pow2_def binade.simps)

lemma advance_circle_9:
  "advance 100 1 (1152921504606847 / 2 ^ 60) (8106479329266899 / 2 ^ 53) = Some (4503599627370499 / 2 ^ 52)"
  by (simp add: advance_numeral fadd_def round64_def rne_def pow2_def binade.simps)

lemma advance_hundredth_50:
  "advance 50 (1 / 2) (5764607523034235 / 2 ^ 59) 0 = Some (2251799813685249 / 2 ^ 52)"
  by (simp add: advance_numeral fadd_def round64_def rne_def pow2_def binade.simps)

lemma advance_hundredth_100:
  "advance 100 1 (5764607523034235 / 2 ^ 59) 0 = Some (4503599627370499 / 2 ^ 52)"
  by (simp add: advance_numeral fadd_def round64_def rne_def pow2_def binade.simps)

lemma advance_thousandth:
  "advance 1000 1 (1152921504606847 / 2 ^ 60) 0 = Some (4503599627370499 / 2 ^ 52)"
proof -
  have a2: "advance 200 1 (1152921504606847 / 2 ^ 60) 0 = Some (7205759403792799 / 2 ^ 55)"
    using advance_add[OF advance_circle_0 advance_circle_1] by simp
  have a3: "advance 300 1 (1152921504606847 / 2 ^ 60) 0 = Some (5404319552844599 / 2 ^ 54)"
    using advance_add[OF a2 advance_circle_2] by simp
  have a4: "advance 400 1 (1152921504606847 / 2 ^ 60) 0 = Some (7205759403792799 / 2 ^ 54)"
    using advance_add[OF a3 advance_circle_3] by simp
  have a5: "advance 500 1 (1152921504606847 / 2 ^ 60) 0 = Some (4503599627370499 / 2 ^ 53)"
    using advance_add[OF a4 advance_circle_4] by simp
  have a6: "advance 600 1 (1152921504606847 / 2 ^ 60) 0 = Some (5404319552844599 / 2 ^ 53)"
    using advance_add[OF a5 advance_circle_5] by simp
  have a7: "advance 700 1 (1152921504606847 / 2 ^ 60) 0 = Some (6305039478318699 / 2 ^ 53)"
    using advance_add[OF a6 advance_circle_6] by simp
  have a8: "advance 800 1 (1152921504606847 / 2 ^ 60) 0 = Some (7205759403792799 / 2 ^ 53)"
    using advance_add[OF a7 advance_circle_7] by simp
  have a9: "advance 900 1 (1152921504606847 / 2 ^ 60) 0 = Some (8106479329266899 / 2 ^ 53)"
    using advance_add[OF a8 advance_circle_8] by simp
  have a10: "advance 1000 1 (1152921504606847 / 2 ^ 60) 0 = Some (4503599627370499 / 2 ^ 52)"
    using advance_add[OF a9 advance_circle_9] by simp
  show ?thesis by (rule a10)
qed

lemma length_steps_thousandth: "length (steps 1001 1 (round64 (1 / 1000)) 0) = 1000"
  using steps_advance[OF advance_thousandth, of 1]
  by (simp add: round64_thousandth)

lemma length_steps_hundredth: "length (steps 101 1 (round64 (1 / 100)) 0) = 100"
  using steps_advance[OF advance_hundredth_100, of 1]
  by (simp add: round64_hundredth)

lemma length_steps_hundredth_half: "length (steps 51 (1 / 2) (round64 (1 / 100)) 0) = 50"
  using steps_advance[OF advance_hundredth_50, of 1]
  by (simp add: round64_hundredth)

section \<open>Facts about the circle\<close>

text \<open>The values of \<open>t\<close> at which \<^verbatim>\<open>AddCircle\<close> samples the circle.\<close>

definition circle_samples :: "float64 list" where
  "circle_samples = steps 1001 1 (round64 (1 / 1000)) 0"

lemma AddCircle_result:
  assumes "length m = 4"
  shows "AddCircle m [cx, cy, cz, r] =
     Some (Inr [m ! 0 @ map (\<lambda>t. r * cos (2 * pi * t) + cx) circle_samples,
                m ! 1 @ map (\<lambda>t. r * sin (2 * pi * t) + cy) circle_samples,
                m ! 2 @ map (\<lambda>t. 0) circle_samples,
                m ! 3 @ map (\<lambda>t. 1) circle_samples])"
proof -
  from assms obtain r0 r1 r2 r3 where m: "m = [r0, r1, r2, r3]"
    by (auto simp: length_4_conv)
  have "length (steps 1001 1 (round64 (1 / 1000)) 0) < 1001"
    by (simp add: length_steps_thousandth)
  note loop = float_for_steps[OF this]
  show ?thesis
    by (simp add: AddCircle_def m circle_samples_def loop AddPoint_fold)
qed

text \<open>
  Claim C9. On an edge matrix of four rows, \<^verbatim>\<open>AddCircle\<close> with arguments
  \<open>cx, cy, cz, r\<close> returns, and has sampled \<open>t\<close> at 1000 values: they start at 0, each is
  the binary64 sum of the one before and 0.001, and all lie in \<open>[0, 1]\<close>. For each
  sample it has appended exactly one point, with \<open>x = r cos(2 pi t) + cx\<close>,
  \<open>y = r sin(2 pi t) + cy\<close>, \<open>z = 0\<close> and fourth component 1; \<open>cz\<close> does not occur in the
  result. For centre \<open>(0, 0)\<close> and radius 5 every appended point has \<open>x^2 + y^2\<close>
  within \<open>10^-6\<close> of 25 (exactly 25 with the exact sine and cosine of the model).
\<close>

theorem AddCircle_samples:
  assumes "length m = 4"
  shows "\<exists>ts. length ts = 1000 \<and> ts ! 0 = 0 \<and>
           (\<forall>k. Suc k < 1000 \<longrightarrow> ts ! Suc k = fadd (ts ! k) (round64 (1 / 1000))) \<and>
           (\<forall>t\<in>set ts. 0 \<le> t \<and> t \<le> 1) \<and>
           AddCircle m [cx, cy, cz, r] =
             Some (Inr [m ! 0 @ map (\<lambda>t. r * cos (2 * pi * t) + cx) ts,
                        m ! 1 @ map (\<lambda>t. r * sin (2 * pi * t) + cy) ts,
                        m ! 2 @ map (\<lambda>t. 0) ts,
                        m ! 3 @ map (\<lambda>t. 1) ts]) \<and>
           (\<exists>m'. AddCircle m [0, 0, cz, 5] = Some (Inr m') \<and>
              length (m' ! 0) = length (m ! 0) + 1000 \<and>
              length (m' ! 1) = length (m ! 1) + 1000 \<and>
              (\<forall>k<1000. \<bar>(m' ! 0 ! (length (m ! 0) + k))\<^sup>2 + (m' ! 1 ! (length (m ! 1) + k))\<^sup>2 - 25\<bar>
                  \<le> 1 / 10 ^ 6))"
proof (intro exI[of _ circle_samples] conjI)
  show len: "length circle_samples = 1000"
    by (simp only: circle_samples_def length_steps_thousandth)
  then have ne: "steps 1001 1 (round64 (1 / 1000)) 0 \<noteq> []"
    by (auto simp: circle_samples_def)
  show "circle_samples ! 0 = 0"
    unfolding circle_samples_def by (rule steps_hd[OF ne])
  show "\<forall>k. Suc k < 1000 \<longrightarrow>
      circle_samples ! Suc k = fadd (circle_samples ! k) (round64 (1 / 1000))"
    using len unfolding circle_samples_def by (auto intro: steps_Suc)
  have c: "0 \<le> round64 (1 / 1000)" by (rule round64_nonneg) simp
  show "\<forall>t\<in>set circle_samples. 0 \<le> t \<and> t \<le> 1"
    unfolding circle_samples_def
    using steps_le[of _ 1001 1 "round64 (1 / 1000)" 0]
      steps_nonneg[OF c, of 0 _ 1001 1] by auto
  show "AddCircle m [cx, cy, cz, r] =
     Some (Inr [m ! 0 @ map (\<lambda>t. r * cos (2 * pi * t) + cx) circle_samples,
                m ! 1 @ map (\<lambda>t. r * sin (2 * pi * t) + cy) circle_samples,
                m ! 2 @ map (\<lambda>t. 0) circle_samples,
                m ! 3 @ map (\<lambda>t. 1) circle_samples])"
    by (rule AddCircle_result[OF assms])
  have unit: "25 * (cos x)\<^sup>2 + 25 * (sin x)\<^sup>2 = 25" for x :: real
  proof -
    have "25 * (cos x)\<^sup>2 + 25 * (sin x)\<^sup>2 = 25 * ((cos x)\<^sup>2 + (sin x)\<^sup>2)"
      by (simp only: distrib_left)
    then show ?thesis by simp
  qed
  show "\<exists>m'. AddCircle m [0, 0, cz, 5] = Some (Inr m') \<and>
      length (m' ! 0) = length (m ! 0) + 1000 \<and>
      length (m' ! 1) = length (m ! 1) + 1000 \<and>
      (\<forall>k<1000. \<bar>(m' ! 0 ! (length (m ! 0) + k))\<^sup>2 + (m' ! 1 ! (length (m ! 1) + k))\<^sup>2 - 25\<bar>
          \<le> 1 / 10 ^ 6)"
    unfolding AddCircle_result[OF assms]
    by (simp add: len nth_append unit)
qed

theorem AddCircle_samples_witness:
  "\<exists>m'. AddCircle [[], [], [], []] [0, 0, 0, 5] = Some (Inr m') \<and>
     length (m' ! 0) = 1000 \<and> length (m' ! 1) = 1000 \<and>
     m' ! 0 ! 0 = 5 \<and> m' ! 1 ! 0 = 0 \<and> m' ! 2 ! 0 = 0 \<and> m' ! 3 ! 0 = 1"
proof -
  have l: "length [[], [], [], [] :: float64 list] = 4" by simp
  from AddCircle_samples[OF l, of 0 0 0 5] obtain ts where
    ts: "length ts = 1000" "ts ! 0 = 0" and
    r: "AddCircle [[], [], [], []] [0, 0, 0, 5] =
             Some (Inr [[[], [], [], []] ! 0 @ map (\<lambda>t. 5 * cos (2 * pi * t) + 0) ts,
                        [[], [], [], []] ! 1 @ map (\<lambda>t. 5 * sin (2 * pi * t) + 0) ts,
                        [[], [], [], []] ! 2 @ map (\<lambda>t. 0) ts,
                        [[], [], [], []] ! 3 @ map (\<lambda>t. 1) ts])"
    by blast
  show ?thesis unfolding r using ts by simp
qed


end
